theory Spec2Isabelle
  imports Main "HOL-Library.AList" "HOL-Library.Multiset"
begin

section \<open>Soundscapy batch processing engine\<close>

text \<open>
  A shallow embedding of \<^verbatim>\<open>src/soundscapy/audio/processing_engine.py\<close>:
  the class \<^verbatim>\<open>PsychoacousticProcessor\<close> (the file processor and the channel
  processor) and the class \<^verbatim>\<open>ProcessingEngine\<close> (the batch engine).

  Python exceptions are values: a function that may raise returns \<open>exn + 'a\<close>, with
  \<open>Inl\<close> the raised exception. Every \<^verbatim>\<open>except Exception\<close> of the source is a
  case distinction on such a value. Mutation of the results objects, of the state
  manager and of the progress tracker is explicit state passing.
\<close>

subsection \<open>Exceptions\<close>

datatype exn = Exception string

text \<open>Python's \<^verbatim>\<open>str(e)\<close>: the message of an exception.\<close>

fun str :: "exn \<Rightarrow> string" where
  "str (Exception msg) = msg"

subsection \<open>Result model\<close>

text \<open>
  Modelled from the spec: the module \<^verbatim>\<open>soundscapy.audio.result_storage\<close>
  (\<^verbatim>\<open>MultiChannelResult\<close>, \<^verbatim>\<open>FileAnalysisResults\<close>,
  \<^verbatim>\<open>DirectoryAnalysisResults\<close>) is not among the sources. The spec describes them
  as pure containers: a mapping from channel identifier to channel result in insertion
  order, a mapping from metric name to multi-channel result with an ordered sequence of
  error strings, and a mapping from file identifier to file results. A mapping is an
  association list with Python's dictionary assignment (\<open>AList.update\<close>: an existing
  key keeps its position and takes the new value, a new key goes to the end).

  The value a metric computes is an object with a writable attribute
  \<^verbatim>\<open>channel\<close>; the rest of it is opaque (\<open>payload\<close>).
\<close>

record 'r channel_result =
  payload :: 'r
  channel :: string

type_synonym 'r multi_channel_result = "(string \<times> 'r channel_result) list"

definition MultiChannelResult :: "'r multi_channel_result" where
  "MultiChannelResult = []"

definition add_channel_result ::
  "'r multi_channel_result \<Rightarrow> string \<Rightarrow> 'r channel_result \<Rightarrow> 'r multi_channel_result" where
  "add_channel_result mcr channel_name res = AList.update channel_name res mcr"

record 'r file_analysis_results =
  file_path :: string
  metric_results :: "(string \<times> 'r multi_channel_result) list"
  errors :: "string list"

definition FileAnalysisResults :: "string \<Rightarrow> 'r file_analysis_results" where
  "FileAnalysisResults p = \<lparr>file_path = p, metric_results = [], errors = []\<rparr>"

definition add_metric_result ::
  "'r file_analysis_results \<Rightarrow> string \<Rightarrow> 'r multi_channel_result \<Rightarrow> 'r file_analysis_results" where
  "add_metric_result fr metric_name mcr =
     fr\<lparr>metric_results := AList.update metric_name mcr (metric_results fr)\<rparr>"

definition add_error :: "'r file_analysis_results \<Rightarrow> string \<Rightarrow> 'r file_analysis_results" where
  "add_error fr msg = fr\<lparr>errors := errors fr @ [msg]\<rparr>"

record 'r directory_analysis_results =
  directory_path :: string
  entries :: "(string \<times> 'r file_analysis_results) list"

definition DirectoryAnalysisResults :: "string \<Rightarrow> 'r directory_analysis_results" where
  "DirectoryAnalysisResults d = \<lparr>directory_path = d, entries = []\<rparr>"

definition add_file_result ::
  "'r directory_analysis_results \<Rightarrow> string \<Rightarrow> 'r file_analysis_results
     \<Rightarrow> 'r directory_analysis_results" where
  "add_file_result dr p fr = dr\<lparr>entries := AList.update p fr (entries dr)\<rparr>"

subsection \<open>Signals\<close>

text \<open>
  Modelled from the spec: the class \<^verbatim>\<open>BinauralSignal\<close> is not among the sources.
  The spec's signal loader produces an object exposing a channel count and per-index
  channel access. A signal is the path it was loaded from and the list of its channels;
  \<^verbatim>\<open>audio_data[i]\<close> raises outside the channel range, and \<^verbatim>\<open>left\<close> and
  \<^verbatim>\<open>right\<close> are the channels of index 0 and 1.
\<close>

record 's binaural_signal =
  source_path :: string
  channel_data :: "'s list"

definition channels :: "'s binaural_signal \<Rightarrow> nat" where
  "channels a = length (channel_data a)"

definition getitem :: "'s binaural_signal \<Rightarrow> nat \<Rightarrow> exn + 's" where
  "getitem a i =
     (if i < channels a then Inr (channel_data a ! i) else Inl (Exception ''IndexError''))"

definition left :: "'s binaural_signal \<Rightarrow> exn + 's" where
  "left a = getitem a 0"

definition right :: "'s binaural_signal \<Rightarrow> exn + 's" where
  "right a = getitem a 1"

subsection \<open>Collaborators\<close>

text \<open>
  The metric registry, the metrics and the signal loader are outside the engine; the
  engine is verified for every behaviour of them. A metric is an object of some type
  \<open>'m\<close>: \<^verbatim>\<open>get_metric(name)\<close> yields it or raises,
  \<^verbatim>\<open>metric.configure(metric_config)\<close> changes it or raises, and
  \<^verbatim>\<open>metric.calculate(segment)\<close> yields a result object or raises.

  A metric's configuration is a dictionary: its key \<^verbatim>\<open>enabled\<close> may be absent,
  the other keys are \<open>options\<close>.
\<close>

record 'o metric_config =
  enabled :: "bool option"
  options :: 'o

record ('m, 'o, 's, 'r) collaborators =
  get_metric :: "string \<Rightarrow> exn + 'm"
  configure :: "'m \<Rightarrow> 'o metric_config \<Rightarrow> exn + 'm"
  calculate :: "'m \<Rightarrow> 's \<Rightarrow> exn + 'r channel_result"
  from_wav :: "string \<Rightarrow> exn + 's binaural_signal"
  listdir :: "string \<Rightarrow> exn + string list"

subsection \<open>PsychoacousticProcessor\<close>

text \<open>
  The processor's configuration: \<open>metrics\<close> is \<^verbatim>\<open>config.get("metrics", {})\<close>, a
  dictionary in insertion order, and \<open>force_reprocess\<close> is
  \<^verbatim>\<open>config.get("force_reprocess", False)\<close>. The attributes
  \<^verbatim>\<open>segment_length\<close>, \<^verbatim>\<open>overlap\<close> and \<^verbatim>\<open>result_detail\<close> are stored by
  the constructor and read nowhere.
\<close>

record 'o processor =
  metrics :: "(string \<times> 'o metric_config) list"
  force_reprocess :: bool

text \<open>\<^verbatim>\<open>metric_config.get("enabled", True)\<close>\<close>

definition is_enabled :: "'o metric_config \<Rightarrow> bool" where
  "is_enabled cfg = (case enabled cfg of None \<Rightarrow> True | Some b \<Rightarrow> b)"

definition segment_signal :: "'s \<Rightarrow> 's list" where
  "segment_signal audio_data = [audio_data]"

definition analyze_segment ::
  "('m, 'o, 's, 'r) collaborators \<Rightarrow> 's \<Rightarrow> 'm \<Rightarrow> exn + 'r channel_result" where
  "analyze_segment E segment metric = calculate E metric segment"

text \<open>The loop of \<^verbatim>\<open>_process_channel\<close> over the segments, appending to \<open>results\<close>.\<close>

fun analyze_segments ::
  "('m, 'o, 's, 'r) collaborators \<Rightarrow> 'm \<Rightarrow> 's list \<Rightarrow> 'r channel_result list
     \<Rightarrow> exn + 'r channel_result list" where
  "analyze_segments E metric [] results = Inr results"
| "analyze_segments E metric (segment # segments) results =
     (case analyze_segment E segment metric of
        Inl e \<Rightarrow> Inl e
      | Inr res \<Rightarrow> analyze_segments E metric segments (results @ [res]))"

text \<open>
  \<^verbatim>\<open>_process_channel\<close>: \<^verbatim>\<open>results[0]\<close> raises on an empty list, and the
  first result's attribute \<^verbatim>\<open>channel\<close> is set to the channel's name.
\<close>

definition process_channel ::
  "('m, 'o, 's, 'r) collaborators \<Rightarrow> 'm \<Rightarrow> 's \<Rightarrow> string \<Rightarrow> exn + 'r channel_result" where
  "process_channel E metric chan channel_name =
     (case analyze_segments E metric (segment_signal chan) [] of
        Inl e \<Rightarrow> Inl e
      | Inr results \<Rightarrow>
          (case results of
             [] \<Rightarrow> Inl (Exception ''IndexError'')
           | res # _ \<Rightarrow> Inr (res\<lparr>channel := channel_name\<rparr>)))"

text \<open>Decimal digits of a natural number, as Python's formatting of an integer.\<close>

definition digit_char :: "nat \<Rightarrow> char" where
  "digit_char d = ''0123456789'' ! d"

fun str_nat :: "nat \<Rightarrow> string" where
  "str_nat n = (if n < 10 then [digit_char n] else str_nat (n div 10) @ [digit_char (n mod 10)])"

declare str_nat.simps [simp del]

text \<open>\<^verbatim>\<open>f"channel_{i + 1}"\<close>\<close>

definition channel_label :: "nat \<Rightarrow> string" where
  "channel_label i = ''channel_'' @ str_nat (i + 1)"

text \<open>
  The sequential branch: \<^verbatim>\<open>for i in range(audio_data.channels)\<close>, over the list
  of indices still to visit.
\<close>

fun sequential_channels ::
  "('m, 'o, 's, 'r) collaborators \<Rightarrow> 'm \<Rightarrow> 's binaural_signal \<Rightarrow> nat list
     \<Rightarrow> 'r multi_channel_result \<Rightarrow> exn + 'r multi_channel_result" where
  "sequential_channels E metric audio_data [] mcr = Inr mcr"
| "sequential_channels E metric audio_data (i # rest) mcr =
     (case getitem audio_data i of
        Inl e \<Rightarrow> Inl e
      | Inr chan \<Rightarrow>
          (case process_channel E metric chan (channel_label i) of
             Inl e \<Rightarrow> Inl e
           | Inr channel_result \<Rightarrow>
               sequential_channels E metric audio_data rest
                 (add_channel_result mcr (channel_label i) channel_result)))"

text \<open>
  The two-channel branch. Both calls are submitted to a pool of two threads, with their
  arguments evaluated at submission; \<^verbatim>\<open>future_left.result()\<close> is read first and
  re-raises what the left call raised, then \<^verbatim>\<open>future_right.result()\<close>. The two
  calls share no state, so the outcome is that of running them one after the other.
\<close>

definition two_channel_pool ::
  "('m, 'o, 's, 'r) collaborators \<Rightarrow> 'm \<Rightarrow> 's binaural_signal
     \<Rightarrow> 'r multi_channel_result \<Rightarrow> exn + 'r multi_channel_result" where
  "two_channel_pool E metric audio_data mcr =
     (case left audio_data of
        Inl e \<Rightarrow> Inl e
      | Inr l \<Rightarrow>
          (case right audio_data of
             Inl e \<Rightarrow> Inl e
           | Inr r \<Rightarrow>
               (let future_left = process_channel E metric l ''left'';
                    future_right = process_channel E metric r ''right''
                in case future_left of
                     Inl e \<Rightarrow> Inl e
                   | Inr left_result \<Rightarrow>
                       (case future_right of
                          Inl e \<Rightarrow> Inl e
                        | Inr right_result \<Rightarrow>
                            Inr (add_channel_result
                                   (add_channel_result mcr ''left'' left_result)
                                   ''right'' right_result)))))"

text \<open>
  The body of the loop of \<^verbatim>\<open>process\<close> for one enabled metric, up to the
  multi-channel result that \<^verbatim>\<open>add_metric_result\<close> then records.
\<close>

definition process_metric ::
  "('m, 'o, 's, 'r) collaborators \<Rightarrow> string \<Rightarrow> 'o metric_config \<Rightarrow> 's binaural_signal \<Rightarrow> bool
     \<Rightarrow> exn + 'r multi_channel_result" where
  "process_metric E metric_name metric_config audio_data parallel =
     (case get_metric E metric_name of
        Inl e \<Rightarrow> Inl e
      | Inr metric0 \<Rightarrow>
          (case configure E metric0 metric_config of
             Inl e \<Rightarrow> Inl e
           | Inr metric \<Rightarrow>
               (if parallel \<and> channels audio_data = 2
                then two_channel_pool E metric audio_data MultiChannelResult
                else sequential_channels E metric audio_data [0..<channels audio_data]
                       MultiChannelResult)))"

text \<open>
  The loop of \<^verbatim>\<open>process\<close> over the configured metrics, inside its
  \<^verbatim>\<open>try\<close>. It returns the file results as they are when the loop ends, and the
  exception that ended it, if any.
\<close>

fun metrics_loop ::
  "('m, 'o, 's, 'r) collaborators \<Rightarrow> (string \<times> 'o metric_config) list \<Rightarrow> 's binaural_signal
     \<Rightarrow> bool \<Rightarrow> 'r file_analysis_results \<Rightarrow> 'r file_analysis_results \<times> exn option" where
  "metrics_loop E [] audio_data parallel file_results = (file_results, None)"
| "metrics_loop E ((metric_name, metric_config) # rest) audio_data parallel file_results =
     (if is_enabled metric_config then
        (case process_metric E metric_name metric_config audio_data parallel of
           Inl e \<Rightarrow> (file_results, Some e)
         | Inr multi_channel_result \<Rightarrow>
             metrics_loop E rest audio_data parallel
               (add_metric_result file_results metric_name multi_channel_result))
      else metrics_loop E rest audio_data parallel file_results)"

text \<open>
  \<^verbatim>\<open>process\<close>: the handler of \<^verbatim>\<open>except Exception\<close> logs the exception and
  returns \<open>file_results\<close>, as the normal exit does.
\<close>

definition process ::
  "('m, 'o, 's, 'r) collaborators \<Rightarrow> 'o processor \<Rightarrow> 's binaural_signal \<Rightarrow> bool
     \<Rightarrow> 'r file_analysis_results" where
  "process E self audio_data parallel =
     (case metrics_loop E (metrics self) audio_data parallel
             (FileAnalysisResults (source_path audio_data)) of
        (file_results, None) \<Rightarrow> file_results
      | (file_results, Some e) \<Rightarrow> file_results)"

subsection \<open>State manager and progress tracker\<close>

text \<open>
  The class \<^verbatim>\<open>StateManager\<close> is not among the sources. The engine calls two of
  its methods, each of which may raise; it is verified for every state manager, given
  as a type \<open>'st\<close> of states with the two methods.
\<close>

record 'st state_manager_ops =
  is_processed :: "'st \<Rightarrow> string \<Rightarrow> exn + bool"
  mark_processed :: "'st \<Rightarrow> string \<Rightarrow> exn + 'st"

text \<open>
  Modelled from the spec: the \<^verbatim>\<open>StateManager\<close> of the spec is a durable key set
  of completed file identifiers with \<^verbatim>\<open>isComplete(id)\<close> and
  \<^verbatim>\<open>markComplete(id)\<close>, append-only. This is that state manager when its storage
  does not fail.
\<close>

definition set_state_manager :: "string set state_manager_ops" where
  "set_state_manager =
     \<lparr>is_processed = (\<lambda>st p. Inr (p \<in> st)),
      mark_processed = (\<lambda>st p. Inr (insert p st))\<rparr>"

text \<open>
  Modelled from the spec: the class \<^verbatim>\<open>ProgressTracker\<close> is not among the sources.
  The spec's progress counter is a total, a completed count and a label, and
  \<^verbatim>\<open>update()\<close> is one increment of the count.
\<close>

record progress_tracker =
  total :: nat
  completed :: nat
  description :: string

definition ProgressTracker :: "nat \<Rightarrow> string \<Rightarrow> progress_tracker" where
  "ProgressTracker n desc = \<lparr>total = n, completed = 0, description = desc\<rparr>"

definition update :: "progress_tracker \<Rightarrow> progress_tracker" where
  "update pt = pt\<lparr>completed := completed pt + 1\<rparr>"

subsection \<open>ProcessingEngine\<close>

record 'o processing_engine =
  processor :: "'o processor"
  max_workers :: int

text \<open>
  \<^verbatim>\<open>_process_file\<close>. The call of \<^verbatim>\<open>is_processed\<close> is outside the
  \<^verbatim>\<open>try\<close>, so what it raises leaves the function; \<^verbatim>\<open>process\<close> raises
  nothing, so the handler is reached from \<^verbatim>\<open>from_wav\<close> only.
\<close>

definition process_file ::
  "'st state_manager_ops \<Rightarrow> ('m, 'o, 's, 'r) collaborators \<Rightarrow> string \<Rightarrow> 'o processor \<Rightarrow> 'st
     \<Rightarrow> bool \<Rightarrow> exn + 'r file_analysis_results" where
  "process_file S E path proc st parallel_channels =
     (case is_processed S st path of
        Inl e \<Rightarrow> Inl e
      | Inr already \<Rightarrow>
          (if already \<and> \<not> force_reprocess proc then Inr (FileAnalysisResults path)
           else
             (case from_wav E path of
                Inl e \<Rightarrow> Inr (add_error (FileAnalysisResults path) (str e))
              | Inr audio_data \<Rightarrow> Inr (process E proc audio_data parallel_channels))))"

text \<open>\<^verbatim>\<open>f.endswith(".wav")\<close> and POSIX \<^verbatim>\<open>os.path.join\<close> of two components.\<close>

definition endswith :: "string \<Rightarrow> string \<Rightarrow> bool" where
  "endswith s suf = (length suf \<le> length s \<and> drop (length s - length suf) s = suf)"

definition path_join :: "string \<Rightarrow> string \<Rightarrow> string" where
  "path_join a b =
     (if b \<noteq> [] \<and> hd b = CHR ''/'' then b
      else if a = [] \<or> last a = CHR ''/'' then a @ b
      else a @ ''/'' @ b)"

definition wav_files :: "string \<Rightarrow> string list \<Rightarrow> string list" where
  "wav_files directory names =
     map (path_join directory) (filter (\<lambda>f. endswith f ''.wav'') names)"

text \<open>
  The state of a run of \<^verbatim>\<open>process_directory\<close>: the results collected so far,
  the state manager and the progress tracker.
\<close>

record ('st, 'r) run =
  directory_results :: "'r directory_analysis_results"
  state_manager :: 'st
  progress_tracker :: progress_tracker

text \<open>
  The body of the loop over the completed futures. \<open>future\<close> is the outcome of the
  call of \<^verbatim>\<open>_process_file\<close> in the pool: \<^verbatim>\<open>future.result()\<close> returns its
  value or re-raises its exception, inside the \<^verbatim>\<open>try\<close>. The handler of
  \<^verbatim>\<open>except Exception\<close> also catches what \<^verbatim>\<open>mark_processed\<close> raises, after
  the result has been added; the \<^verbatim>\<open>finally\<close> clause runs on every path.
\<close>

definition error_result :: "string \<Rightarrow> exn \<Rightarrow> 'r file_analysis_results" where
  "error_result path e = add_error (FileAnalysisResults path) (str e)"

definition completed_future ::
  "'st state_manager_ops \<Rightarrow> string \<Rightarrow> exn + 'r file_analysis_results \<Rightarrow> ('st, 'r) run
     \<Rightarrow> ('st, 'r) run" where
  "completed_future S path future R =
     (let R' =
        (case future of
           Inl e \<Rightarrow>
             R\<lparr>directory_results := add_file_result (directory_results R) path (error_result path e)\<rparr>
         | Inr res \<Rightarrow>
             (let dr = add_file_result (directory_results R) path res
              in case mark_processed S (state_manager R) path of
                   Inl e \<Rightarrow> R\<lparr>directory_results := add_file_result dr path (error_result path e)\<rparr>
                 | Inr st' \<Rightarrow> R\<lparr>directory_results := dr, state_manager := st'\<rparr>))
      in R'\<lparr>progress_tracker := update (progress_tracker R')\<rparr>)"

text \<open>
  The pool runs the submitted calls concurrently and \<^verbatim>\<open>as_completed\<close> yields
  them in the order in which they finish, which the scheduler decides. A schedule is
  two lists. \<open>picks\<close> decides the order: each pick selects, among the files still
  pending, the one that completes next; when the picks are used up the rest completes in
  submission order. Every list of picks gives a permutation of the submitted files
  (\<open>mset_completion_order\<close>) and every permutation is given by some picks
  (\<open>completion_order_complete\<close>).
\<close>

fun completion_order :: "nat list \<Rightarrow> 'a list \<Rightarrow> 'a list" where
  "completion_order [] pending = pending"
| "completion_order (i # picks) [] = []"
| "completion_order (i # picks) (x # xs) =
     (let j = i mod length (x # xs)
      in (x # xs) ! j # completion_order picks (take j (x # xs) @ drop (Suc j) (x # xs)))"

text \<open>
  \<open>views\<close> decides what each worker saw: the call of \<^verbatim>\<open>_process_file\<close> for a
  file reads the state manager at some moment before the file's future is handled, when
  the main thread has handled some number of earlier completions. \<open>seen\<close> is the list
  of the state manager's states after 0, 1, 2, ... handled completions, and the head of
  \<open>views\<close> selects one of them for the file that completes next (0, the state at
  submission, when the views are used up). The last argument of
  \<^verbatim>\<open>_process_file\<close> is the constant \<^verbatim>\<open>False\<close> of the source.
\<close>

fun as_completed ::
  "'st state_manager_ops \<Rightarrow> ('m, 'o, 's, 'r) collaborators \<Rightarrow> 'o processor \<Rightarrow> string list
     \<Rightarrow> nat list \<Rightarrow> 'st list \<Rightarrow> ('st, 'r) run \<Rightarrow> ('st, 'r) run" where
  "as_completed S E proc [] views seen R = R"
| "as_completed S E proc (path # rest) views seen R =
     (let k = (case views of [] \<Rightarrow> 0 | v # _ \<Rightarrow> v);
          st_seen = seen ! min k (length seen - 1);
          future = process_file S E path proc st_seen False;
          R' = completed_future S path future R
      in as_completed S E proc rest (tl views) (seen @ [state_manager R']) R')"

text \<open>
  The calls of the state manager that the loop makes, in completion order: for each
  completed file, its path, the state that the file's \<^verbatim>\<open>is_processed\<close> saw, and
  the state on which \<^verbatim>\<open>mark_processed\<close> is called when the file's future
  returned a result. The recursion is that of \<open>as_completed\<close>.
\<close>

fun state_manager_calls ::
  "'st state_manager_ops \<Rightarrow> ('m, 'o, 's, 'r) collaborators \<Rightarrow> 'o processor \<Rightarrow> string list
     \<Rightarrow> nat list \<Rightarrow> 'st list \<Rightarrow> ('st, 'r) run \<Rightarrow> (string \<times> 'st \<times> 'st) list" where
  "state_manager_calls S E proc [] views seen R = []"
| "state_manager_calls S E proc (path # rest) views seen R =
     (let k = (case views of [] \<Rightarrow> 0 | v # _ \<Rightarrow> v);
          st_seen = seen ! min k (length seen - 1);
          future = process_file S E path proc st_seen False;
          R' = completed_future S path future R
      in (path, st_seen, state_manager R) #
         state_manager_calls S E proc rest (tl views) (seen @ [state_manager R']) R')"

text \<open>
  \<^verbatim>\<open>process_directory\<close>. Two calls are outside every \<^verbatim>\<open>try\<close>, and what
  they raise leaves the function: \<^verbatim>\<open>os.listdir\<close>, and then
  \<^verbatim>\<open>ThreadPoolExecutor(max_workers=self.max_workers)\<close>, which raises
  \<^verbatim>\<open>ValueError\<close> when the worker count is not positive, before any file is
  submitted. \<open>start_run\<close> is the state before the first completion: no results, the
  caller's state manager, and a progress tracker created with the number of eligible
  files. The result is the returned \<^verbatim>\<open>DirectoryAnalysisResults\<close> together with
  the state manager and the progress tracker as the run leaves them. Beyond this check
  the worker count only restricts which schedules can occur.
\<close>

definition start_run :: "string \<Rightarrow> 'st \<Rightarrow> string list \<Rightarrow> ('st, 'r) run" where
  "start_run directory st file_paths =
     \<lparr>directory_results = DirectoryAnalysisResults directory,
      state_manager = st,
      progress_tracker = ProgressTracker (length file_paths) ''Processing files''\<rparr>"

definition process_directory ::
  "'st state_manager_ops \<Rightarrow> ('m, 'o, 's, 'r) collaborators \<Rightarrow> 'o processing_engine \<Rightarrow> string
     \<Rightarrow> 'st \<Rightarrow> nat list \<Rightarrow> nat list \<Rightarrow> exn + ('st, 'r) run" where
  "process_directory S E self directory st picks views =
     (case listdir E directory of
        Inl e \<Rightarrow> Inl e
      | Inr names \<Rightarrow>
          (let file_paths = wav_files directory names
           in if max_workers self \<le> 0
              then Inl (Exception ''max_workers must be greater than 0'')
              else Inr (as_completed S E (processor self) (completion_order picks file_paths)
                          views [st] (start_run directory st file_paths))))"

text \<open>
  What \<^verbatim>\<open>os.listdir\<close> returns: the names of the entries of one directory,
  each once and none with a path separator in it.
\<close>

definition directory_listing :: "string list \<Rightarrow> bool" where
  "directory_listing names = (distinct names \<and> (\<forall>f \<in> set names. CHR ''/'' \<notin> set f))"

text \<open>
  The result the loop records for a file when \<^verbatim>\<open>mark_processed\<close> does not
  raise: what the file's call of \<^verbatim>\<open>_process_file\<close> returned, or the error
  result made from what it raised. \<open>st\<close> is the state the call saw.
\<close>

definition unit_of_work ::
  "'st state_manager_ops \<Rightarrow> ('m, 'o, 's, 'r) collaborators \<Rightarrow> 'o processor \<Rightarrow> 'st \<Rightarrow> string
     \<Rightarrow> 'r file_analysis_results" where
  "unit_of_work S E proc st path =
     (case process_file S E path proc st False of
        Inl e \<Rightarrow> error_result path e
      | Inr res \<Rightarrow> res)"

subsection \<open>Reading decimal digits back\<close>

definition digit_value :: "char \<Rightarrow> nat" where
  "digit_value c = (of_char c :: nat) - 48"

definition nat_of_str :: "string \<Rightarrow> nat" where
  "nat_of_str s = foldl (\<lambda>acc c. 10 * acc + digit_value c) 0 s"

subsection \<open>The labels the spec promises\<close>

text \<open>
  In the spec's words: the keys of a metric's multi-channel result are \<open>left\<close> and
  \<open>right\<close> when parallel processing is requested and the signal has exactly two
  channels, and \<open>channel_1\<close> to \<open>channel_k\<close> for a signal of \<open>k\<close> channels
  otherwise. \<open>enabled_names\<close> is the list of the enabled metrics in configuration
  order.
\<close>

definition channel_keys :: "bool \<Rightarrow> 's binaural_signal \<Rightarrow> string list" where
  "channel_keys parallel audio_data =
     (if parallel \<and> channels audio_data = 2 then [''left'', ''right'']
      else map channel_label [0..<channels audio_data])"

definition enabled_names :: "(string \<times> 'o metric_config) list \<Rightarrow> string list" where
  "enabled_names ms = map fst (filter (\<lambda>(name, cfg). is_enabled cfg) ms)"

subsection \<open>A concrete installation\<close>

text \<open>
  Two known metrics, \<open>loudness\<close> (the metric object 10) and \<open>sharpness\<close> (the
  metric object 20), over signals whose channels are numbers; the calculation of
  \<open>loudness\<close> raises on a channel that is 0. Directory \<open>d\<close> holds a file that
  loads and computes (\<open>a.wav\<close>), one that does not load (\<open>b.wav\<close>), one whose
  first channel is 0 (\<open>c.wav\<close>) and a file that is not a recording; directory
  \<open>e\<close> holds two files that load and compute and one that does not load.
\<close>

definition demo :: "(nat, unit, nat, nat) collaborators" where
  "demo =
     \<lparr>get_metric = (\<lambda>name.
        if name = ''loudness'' then Inr 10
        else if name = ''sharpness'' then Inr 20
        else Inl (Exception ''unknown metric'')),
      configure = (\<lambda>m cfg. Inr m),
      calculate = (\<lambda>m s.
        if s = 0 \<and> m = 10 then Inl (Exception ''empty signal'')
        else Inr \<lparr>payload = s + m, channel = []\<rparr>),
      from_wav = (\<lambda>p.
        if p = ''d/a.wav'' then Inr \<lparr>source_path = p, channel_data = [2, 3]\<rparr>
        else if p = ''d/c.wav'' then Inr \<lparr>source_path = p, channel_data = [0, 4]\<rparr>
        else if p = ''e/a.wav'' then Inr \<lparr>source_path = p, channel_data = [5, 6]\<rparr>
        else if p = ''e/c.wav'' then Inr \<lparr>source_path = p, channel_data = [7]\<rparr>
        else Inl (Exception ''not a wav file'')),
      listdir = (\<lambda>d.
        if d = ''d'' then Inr [''a.wav'', ''notes.txt'', ''b.wav'', ''c.wav'']
        else if d = ''e'' then Inr [''a.wav'', ''b.wav'', ''c.wav'']
        else Inl (Exception ''no such directory''))\<rparr>"

definition on :: "unit metric_config" where
  "on = \<lparr>enabled = None, options = ()\<rparr>"

definition off :: "unit metric_config" where
  "off = \<lparr>enabled = Some False, options = ()\<rparr>"

definition demo_processor :: "unit processor" where
  "demo_processor =
     \<lparr>metrics = [(''loudness'', on), (''tonality'', off), (''sharpness'', on)],
      force_reprocess = False\<rparr>"

definition demo_engine :: "unit processing_engine" where
  "demo_engine = \<lparr>processor = demo_processor, max_workers = 4\<rparr>"

text \<open>A processor configured with a metric the registry does not know.\<close>

definition roughness_processor :: "unit processor" where
  "roughness_processor =
     \<lparr>metrics = [(''loudness'', on), (''roughness'', on), (''sharpness'', on)],
      force_reprocess = False\<rparr>"

text \<open>
  Two state managers whose storage fails. The first has room for one record: once a
  file is marked, \<^verbatim>\<open>mark_processed\<close> raises. The second cannot read the status
  of \<open>d/c.wav\<close> and cannot record \<open>d/a.wav\<close>.
\<close>

definition full_state_manager :: "string set state_manager_ops" where
  "full_state_manager =
     \<lparr>is_processed = (\<lambda>st p. Inr (p \<in> st)),
      mark_processed = (\<lambda>st p.
        if st = {} then Inr (insert p st) else Inl (Exception ''disk full''))\<rparr>"

definition failing_state_manager :: "string set state_manager_ops" where
  "failing_state_manager =
     \<lparr>is_processed = (\<lambda>st p.
        if p = ''d/c.wav'' then Inl (Exception ''state file unreadable'') else Inr (p \<in> st)),
      mark_processed = (\<lambda>st p.
        if p = ''d/a.wav'' then Inl (Exception ''disk full'') else Inr (insert p st))\<rparr>"

section \<open>Lemmas\<close>

subsection \<open>Dictionaries and labels\<close>

lemma update_fresh: "k \<notin> fst ` set al \<Longrightarrow> AList.update k v al = al @ [(k, v)]"
  by (induction al) auto

lemma set_update_subset: "set (AList.update k v al) \<subseteq> insert (k, v) (set al)"
  by (induction al) auto

lemma digit_value_digit_char:
  assumes "d < 10"
  shows "digit_value (digit_char d) = d"
proof -
  have "\<forall>k \<in> set [0..<10]. digit_value (digit_char k) = k"
    by (simp add: upt_rec digit_value_def digit_char_def)
  with assms show ?thesis by simp
qed

lemma nat_of_str_snoc: "nat_of_str (s @ [c]) = 10 * nat_of_str s + digit_value c"
  by (simp add: nat_of_str_def)

lemma nat_of_str_str_nat: "nat_of_str (str_nat n) = n"
proof (induction n rule: str_nat.induct)
  case (1 n)
  show ?case
  proof (cases "n < 10")
    case True
    then show ?thesis
      using nat_of_str_snoc [of "[]" "digit_char n"]
      by (simp add: str_nat.simps [of n] digit_value_digit_char nat_of_str_def)
  next
    case False
    then have "nat_of_str (str_nat (n div 10)) = n div 10"
      using "1" by simp
    with False show ?thesis
      by (simp add: str_nat.simps [of n] nat_of_str_snoc digit_value_digit_char)
  qed
qed

lemma str_nat_inject: "str_nat m = str_nat n \<Longrightarrow> m = n"
  by (metis nat_of_str_str_nat)

lemma channel_label_inject: "channel_label i = channel_label j \<Longrightarrow> i = j"
  using str_nat_inject [of "i + 1" "j + 1"] by (simp add: channel_label_def)

lemma distinct_channel_labels: "distinct idx \<Longrightarrow> distinct (map channel_label idx)"
  by (simp add: distinct_map inj_on_def channel_label_inject)

lemma analyze_segments_results:
  "case analyze_segments E metric segs acc of
     Inl e \<Rightarrow> \<exists>s \<in> set segs. calculate E metric s = Inl e
   | Inr results \<Rightarrow> map Inr results = map Inr acc @ map (calculate E metric) segs"
proof (induction segs arbitrary: acc)
  case Nil
  show ?case by simp
next
  case (Cons s segs)
  show ?case
  proof (cases "calculate E metric s")
    case (Inl e)
    then show ?thesis by (simp add: analyze_segment_def)
  next
    case (Inr res)
    with Cons [of "acc @ [res]"] show ?thesis
      by (auto simp: analyze_segment_def split: sum.splits)
  qed
qed

lemma process_channel_calculate:
  "process_channel E metric chan name =
     (case calculate E metric chan of
        Inl e \<Rightarrow> Inl e
      | Inr res \<Rightarrow> Inr (res\<lparr>channel := name\<rparr>))"
  by (simp add: process_channel_def segment_signal_def analyze_segment_def split: sum.splits)


subsection \<open>The file processor\<close>

lemma sequential_channels_keys:
  assumes "sequential_channels E metric a idx mcr = Inr mcr'"
    and "distinct idx"
    and "\<forall>i \<in> set idx. channel_label i \<notin> fst ` set mcr"
  shows "map fst mcr' = map fst mcr @ map channel_label idx"
  using assms
proof (induction idx arbitrary: mcr)
  case Nil
  then show ?case by simp
next
  case (Cons i idx)
  from Cons.prems(1) obtain chan res where
    res: "process_channel E metric chan (channel_label i) = Inr res"
    and rest: "sequential_channels E metric a idx
                 (add_channel_result mcr (channel_label i) res) = Inr mcr'"
    by (auto split: sum.splits)
  from Cons.prems(3) have fresh: "channel_label i \<notin> fst ` set mcr" by simp
  then have upd: "add_channel_result mcr (channel_label i) res = mcr @ [(channel_label i, res)]"
    by (simp add: add_channel_result_def update_fresh)
  have "\<forall>j \<in> set idx. channel_label j \<notin> fst ` set (mcr @ [(channel_label i, res)])"
    using Cons.prems(2,3) by (auto dest: channel_label_inject)
  with Cons.IH [OF rest] Cons.prems(2) upd show ?case by simp
qed

lemma sequential_channels_fails:
  assumes "i \<in> set idx" and "i < channels a"
    and "calculate E metric (channel_data a ! i) = Inl e"
  shows "\<exists>e'. sequential_channels E metric a idx mcr = Inl e'"
  using assms(1)
proof (induction idx arbitrary: mcr)
  case Nil
  then show ?case by simp
next
  case (Cons j idx)
  show ?case
  proof (cases "sequential_channels E metric a (j # idx) mcr")
    case (Inl e')
    then show ?thesis by blast
  next
    case (Inr mcr')
    then obtain chan res where
      chan: "getitem a j = Inr chan"
      and res: "process_channel E metric chan (channel_label j) = Inr res"
      and rest: "sequential_channels E metric a idx
                   (add_channel_result mcr (channel_label j) res) = Inr mcr'"
      by (auto split: sum.splits)
    have "j \<noteq> i"
    proof
      assume "j = i"
      with chan assms(2) have "chan = channel_data a ! i"
        by (simp add: getitem_def)
      with res assms(3) show False
        by (simp add: process_channel_calculate)
    qed
    with Cons.prems have "i \<in> set idx" by simp
    from Cons.IH [OF this, of "add_channel_result mcr (channel_label j) res"] rest
    show ?thesis by simp
  qed
qed

lemma two_channel_pool_keys:
  "two_channel_pool E metric a MultiChannelResult = Inr mcr \<Longrightarrow> map fst mcr = [''left'', ''right'']"
  by (auto simp: two_channel_pool_def MultiChannelResult_def add_channel_result_def Let_def
      split: sum.splits)

lemma process_metric_keys:
  assumes "process_metric E name cfg a parallel = Inr mcr"
  shows "map fst mcr = channel_keys parallel a"
proof (cases "parallel \<and> channels a = 2")
  case True
  with assms show ?thesis
    by (auto simp: process_metric_def channel_keys_def split: sum.splits
        dest: two_channel_pool_keys)
next
  case False
  with assms obtain metric where
    "sequential_channels E metric a [0..<channels a] MultiChannelResult = Inr mcr"
    by (auto simp: process_metric_def split: sum.splits)
  from sequential_channels_keys [OF this]
  have "map fst mcr = map channel_label [0..<channels a]"
    by (simp add: MultiChannelResult_def)
  moreover from False have "channel_keys parallel a = map channel_label [0..<channels a]"
    unfolding channel_keys_def by (rule if_not_P)
  ultimately show ?thesis by simp
qed

lemma metrics_loop_invariant:
  assumes "metrics_loop E ms a parallel fr = (fr', x)"
    and "\<forall>(name, mcr) \<in> set (metric_results fr). P name mcr"
    and "\<forall>(name, cfg) \<in> set ms. is_enabled cfg \<longrightarrow>
           (\<forall>mcr. process_metric E name cfg a parallel = Inr mcr \<longrightarrow> P name mcr)"
  shows "\<forall>(name, mcr) \<in> set (metric_results fr'). P name mcr"
  using assms
proof (induction ms arbitrary: fr)
  case Nil
  then show ?case by simp
next
  case (Cons m ms)
  obtain name cfg where m: "m = (name, cfg)" by (cases m)
  show ?case
  proof (cases "is_enabled cfg")
    case False
    with Cons.prems(1) m have "metrics_loop E ms a parallel fr = (fr', x)" by simp
    from Cons.IH [OF this Cons.prems(2)] Cons.prems(3) show ?thesis by simp
  next
    case True
    show ?thesis
    proof (cases "process_metric E name cfg a parallel")
      case (Inl e)
      with Cons.prems(1) m True have "fr' = fr" by simp
      with Cons.prems(2) show ?thesis by simp
    next
      case (Inr mcr)
      with Cons.prems(1) m True have
        loop: "metrics_loop E ms a parallel (add_metric_result fr name mcr) = (fr', x)"
        by simp
      have "P name mcr"
        using Cons.prems(3) m True Inr by simp
      with Cons.prems(2) have
        "\<forall>(n, r) \<in> set (metric_results (add_metric_result fr name mcr)). P n r"
        using set_update_subset [of name mcr "metric_results fr"]
        by (auto simp: add_metric_result_def)
      from Cons.IH [OF loop this] Cons.prems(3) show ?thesis by simp
    qed
  qed
qed

lemma metrics_loop_file_path:
  "metrics_loop E ms a parallel fr = (fr', x) \<Longrightarrow>
     file_path fr' = file_path fr \<and> errors fr' = errors fr"
  by (induction ms arbitrary: fr)
     (auto simp: add_metric_result_def split: if_splits sum.splits)

lemma metrics_loop_names:
  assumes "metrics_loop E ms a parallel fr = (fr', None)"
    and "distinct (map fst ms)"
    and "\<forall>name \<in> fst ` set ms. name \<notin> fst ` set (metric_results fr)"
  shows "map fst (metric_results fr') = map fst (metric_results fr) @ enabled_names ms"
  using assms
proof (induction ms arbitrary: fr)
  case Nil
  then show ?case by (simp add: enabled_names_def)
next
  case (Cons m ms)
  obtain name cfg where m: "m = (name, cfg)" by (cases m)
  show ?case
  proof (cases "is_enabled cfg")
    case False
    with Cons.prems(1) m have "metrics_loop E ms a parallel fr = (fr', None)" by simp
    from Cons.IH [OF this] Cons.prems(2,3) False m show ?thesis
      by (simp add: enabled_names_def)
  next
    case True
    with Cons.prems(1) m obtain mcr where
      loop: "metrics_loop E ms a parallel (add_metric_result fr name mcr) = (fr', None)"
      by (auto split: sum.splits)
    from Cons.prems(3) m have "name \<notin> fst ` set (metric_results fr)" by simp
    then have upd: "metric_results (add_metric_result fr name mcr)
                      = metric_results fr @ [(name, mcr)]"
      by (simp add: add_metric_result_def update_fresh)
    have "\<forall>n \<in> fst ` set ms. n \<notin> fst ` set (metric_results (add_metric_result fr name mcr))"
      using Cons.prems(2,3) m upd by auto
    from Cons.IH [OF loop _ this] Cons.prems(2) upd True m show ?thesis
      by (simp add: enabled_names_def)
  qed
qed


lemma metrics_loop_append:
  "metrics_loop E (pre @ rest) a parallel fr =
     (case metrics_loop E pre a parallel fr of
        (fr', None) \<Rightarrow> metrics_loop E rest a parallel fr'
      | (fr', Some e) \<Rightarrow> (fr', Some e))"
  by (induction pre arbitrary: fr) (auto split: sum.splits)

lemma process_aborts_at_failure:
  assumes "metrics self = pre @ (name, cfg) # post"
    and "is_enabled cfg"
    and "process_metric E name cfg a parallel = Inl e"
  shows "process E self a parallel = process E (self\<lparr>metrics := pre\<rparr>) a parallel"
proof -
  obtain fr x where
    pre: "metrics_loop E pre a parallel (FileAnalysisResults (source_path a)) = (fr, x)"
    by (cases "metrics_loop E pre a parallel (FileAnalysisResults (source_path a))")
  with assms obtain y where
    "metrics_loop E (metrics self) a parallel (FileAnalysisResults (source_path a)) = (fr, y)"
    by (cases x) (simp_all add: metrics_loop_append)
  with pre show ?thesis
    by (simp add: process_def split: option.splits)
qed

lemma two_channel_pool_fails:
  assumes "channels a = 2" and "i < channels a"
    and "calculate E metric (channel_data a ! i) = Inl e"
  shows "\<exists>e'. two_channel_pool E metric a mcr = Inl e'"
proof -
  from assms(1,2) have "i = 0 \<or> i = 1" by arith
  with assms(1,3) show ?thesis
    by (auto simp: two_channel_pool_def left_def right_def getitem_def process_channel_calculate
        Let_def split: sum.splits)
qed

lemma process_metric_fails:
  assumes "get_metric E name = Inr metric0" and "configure E metric0 cfg = Inr metric"
    and "i < channels a" and "calculate E metric (channel_data a ! i) = Inl e"
  shows "\<exists>e'. process_metric E name cfg a parallel = Inl e'"
proof (cases "parallel \<and> channels a = 2")
  case True
  with two_channel_pool_fails [OF _ assms(3,4), of MultiChannelResult] assms(1,2)
  show ?thesis by (auto simp: process_metric_def)
next
  case False
  from assms(3) have "i \<in> set [0..<channels a]" by simp
  from sequential_channels_fails [OF this assms(3,4), of MultiChannelResult] False assms(1,2)
  show ?thesis by (auto simp: process_metric_def)
qed

lemma process_names:
  "fst ` set (metric_results (process E self a parallel)) \<subseteq> set (enabled_names (metrics self))"
proof -
  obtain fr x where
    loop: "metrics_loop E (metrics self) a parallel (FileAnalysisResults (source_path a)) = (fr, x)"
    by (cases "metrics_loop E (metrics self) a parallel (FileAnalysisResults (source_path a))")
  then have proc: "process E self a parallel = fr"
    by (simp add: process_def split: option.splits)
  have "\<forall>(name, mcr) \<in> set (metric_results fr). name \<in> set (enabled_names (metrics self))"
    by (rule metrics_loop_invariant [OF loop])
       (force simp: FileAnalysisResults_def enabled_names_def)+
  with proc show ?thesis by auto
qed

lemma process_errors: "errors (process E self a parallel) = []"
proof -
  obtain fr x where
    loop: "metrics_loop E (metrics self) a parallel (FileAnalysisResults (source_path a)) = (fr, x)"
    by (cases "metrics_loop E (metrics self) a parallel (FileAnalysisResults (source_path a))")
  then have "process E self a parallel = fr"
    by (simp add: process_def split: option.splits)
  with metrics_loop_file_path [OF loop] show ?thesis
    by (simp add: FileAnalysisResults_def)
qed

lemma process_result_keys:
  "(name, mcr) \<in> set (metric_results (process E self a parallel)) \<Longrightarrow>
     map fst mcr = channel_keys parallel a"
proof -
  assume mem: "(name, mcr) \<in> set (metric_results (process E self a parallel))"
  obtain fr x where
    loop: "metrics_loop E (metrics self) a parallel (FileAnalysisResults (source_path a)) = (fr, x)"
    by (cases "metrics_loop E (metrics self) a parallel (FileAnalysisResults (source_path a))")
  then have proc: "process E self a parallel = fr"
    by (simp add: process_def split: option.splits)
  have "\<forall>(name, mcr) \<in> set (metric_results fr). map fst mcr = channel_keys parallel a"
    by (rule metrics_loop_invariant [OF loop])
       (auto simp: FileAnalysisResults_def dest: process_metric_keys)
  with proc mem show ?thesis by auto
qed

lemma sequential_channels_succeeds:
  assumes "\<forall>i \<in> set idx. i < channels a"
    and "\<forall>s \<in> set (channel_data a). \<exists>r. calculate E metric s = Inr r"
  shows "\<exists>mcr'. sequential_channels E metric a idx mcr = Inr mcr'"
  using assms(1)
proof (induction idx arbitrary: mcr)
  case Nil
  then show ?case by simp
next
  case (Cons i idx)
  then have i: "i < channels a" by simp
  then have "channel_data a ! i \<in> set (channel_data a)"
    by (simp add: channels_def)
  with assms(2) obtain r where "calculate E metric (channel_data a ! i) = Inr r" by blast
  then have "process_channel E metric (channel_data a ! i) (channel_label i)
               = Inr (r\<lparr>channel := channel_label i\<rparr>)"
    by (simp add: process_channel_calculate)
  moreover from Cons have "\<exists>mcr'. sequential_channels E metric a idx
      (add_channel_result mcr (channel_label i) (r\<lparr>channel := channel_label i\<rparr>)) = Inr mcr'"
    by simp
  ultimately show ?case
    using i by (simp add: getitem_def)
qed

lemma two_channel_pool_succeeds:
  assumes "channels a = 2"
    and "\<forall>s \<in> set (channel_data a). \<exists>r. calculate E metric s = Inr r"
  shows "\<exists>mcr'. two_channel_pool E metric a mcr = Inr mcr'"
proof -
  from assms(1) have "channel_data a ! 0 \<in> set (channel_data a)"
    and "channel_data a ! 1 \<in> set (channel_data a)"
    by (simp_all add: channels_def)
  with assms(2) obtain l r where
    "calculate E metric (channel_data a ! 0) = Inr l"
    and "calculate E metric (channel_data a ! 1) = Inr r"
    by blast
  with assms(1) show ?thesis
    by (simp add: two_channel_pool_def left_def right_def getitem_def
        process_channel_calculate)
qed

lemma process_metric_succeeds:
  assumes "get_metric E name = Inr metric0" and "configure E metric0 cfg = Inr metric"
    and "\<forall>s \<in> set (channel_data a). \<exists>r. calculate E metric s = Inr r"
  shows "\<exists>mcr. process_metric E name cfg a parallel = Inr mcr"
proof (cases "parallel \<and> channels a = 2")
  case True
  with two_channel_pool_succeeds [OF _ assms(3), of MultiChannelResult] assms(1,2)
  show ?thesis by (simp add: process_metric_def)
next
  case False
  with sequential_channels_succeeds [OF _ assms(3), of "[0..<channels a]" MultiChannelResult]
    assms(1,2)
  show ?thesis by (auto simp: process_metric_def)
qed

lemma metrics_loop_succeeds:
  assumes "\<forall>(name, cfg) \<in> set ms. is_enabled cfg \<longrightarrow>
     (\<exists>metric0 metric. get_metric E name = Inr metric0 \<and> configure E metric0 cfg = Inr metric \<and>
        (\<forall>s \<in> set (channel_data a). \<exists>r. calculate E metric s = Inr r))"
  shows "snd (metrics_loop E ms a parallel fr) = None"
  using assms
proof (induction ms arbitrary: fr)
  case Nil
  then show ?case by simp
next
  case (Cons m ms)
  obtain name cfg where m: "m = (name, cfg)" by (cases m)
  show ?case
  proof (cases "is_enabled cfg")
    case False
    with Cons m show ?thesis by simp
  next
    case True
    with Cons.prems m obtain metric0 metric where
      "get_metric E name = Inr metric0" and "configure E metric0 cfg = Inr metric"
      and "\<forall>s \<in> set (channel_data a). \<exists>r. calculate E metric s = Inr r"
      by auto
    from process_metric_succeeds [OF this, of parallel] obtain mcr where
      "process_metric E name cfg a parallel = Inr mcr" by blast
    with Cons True m show ?thesis by simp
  qed
qed

subsection \<open>The batch engine\<close>

lemma mset_completion_order: "mset (completion_order picks xs) = mset xs"
proof (induction picks xs rule: completion_order.induct)
  case (3 i picks x xs)
  define j where "j = i mod length (x # xs)"
  then have j: "j < length (x # xs)" by simp
  have "mset (x # xs) = mset (take j (x # xs) @ (x # xs) ! j # drop (Suc j) (x # xs))"
    using id_take_nth_drop [OF j] by simp
  with "3" [OF j_def] show ?case
    by (simp add: Let_def j_def)
qed simp_all

lemma set_completion_order: "set (completion_order picks xs) = set xs"
  using mset_completion_order [of picks xs] by (metis set_mset_mset)

lemma length_completion_order: "length (completion_order picks xs) = length xs"
  using mset_completion_order [of picks xs] by (metis size_mset)

lemma distinct_completion_order: "distinct (completion_order picks xs) = distinct xs"
  using mset_completion_order [of picks xs] by (metis mset_eq_imp_distinct_iff)

lemma completion_order_complete:
  "mset ys = mset xs \<Longrightarrow> \<exists>picks. completion_order picks xs = ys"
proof (induction ys arbitrary: xs)
  case Nil
  then have "completion_order [] xs = []" by simp
  then show ?case by blast
next
  case (Cons y ys)
  then have "y \<in> set xs" by (metis list.set_intros(1) set_mset_mset)
  then obtain j where j: "j < length xs" and y: "xs ! j = y"
    by (auto simp: in_set_conv_nth)
  then obtain x xs' where xs: "xs = x # xs'" by (cases xs) auto
  have "mset xs = mset (take j xs @ xs ! j # drop (Suc j) xs)"
    using id_take_nth_drop [OF j] by simp
  then have "mset xs = add_mset y (mset (take j xs @ drop (Suc j) xs))"
    using y by simp
  with Cons.prems have "mset ys = mset (take j xs @ drop (Suc j) xs)" by simp
  from Cons.IH [OF this] obtain picks where
    "completion_order picks (take j xs @ drop (Suc j) xs) = ys" by blast
  with j y xs have "completion_order (j # picks) xs = y # ys"
    by (simp add: Let_def)
  then show ?case by blast
qed

lemma path_join_plain:
  "CHR ''/'' \<notin> set f \<Longrightarrow>
     path_join d f = (if d = [] \<or> last d = CHR ''/'' then d else d @ ''/'') @ f"
  by (cases f) (auto simp: path_join_def)

lemma distinct_wav_files:
  assumes "directory_listing names"
  shows "distinct (wav_files d names)"
proof -
  have "inj_on (path_join d) (set (filter (\<lambda>f. endswith f ''.wav'') names))"
    using assms by (auto simp: inj_on_def directory_listing_def path_join_plain)
  moreover have "distinct (filter (\<lambda>f. endswith f ''.wav'') names)"
    using assms by (simp add: directory_listing_def)
  ultimately show ?thesis
    by (simp add: wav_files_def distinct_map)
qed

lemma progress_completed_future:
  "progress_tracker (completed_future S p fut R) = update (progress_tracker R)"
  by (simp add: completed_future_def Let_def split: sum.splits)

lemma progress_as_completed:
  "progress_tracker (as_completed S E proc order views seen R) =
     (progress_tracker R)\<lparr>completed := completed (progress_tracker R) + length order\<rparr>"
  by (induction order arbitrary: views seen R)
     (simp_all add: Let_def progress_completed_future update_def)

lemma map_of_completed_future_other:
  "p \<noteq> q \<Longrightarrow>
     map_of (entries (directory_results (completed_future S q fut R))) p =
     map_of (entries (directory_results R)) p"
  by (simp add: completed_future_def Let_def add_file_result_def update_conv'
      split: sum.splits)

lemma entries_completed_future:
  "\<exists>X. entries (directory_results (completed_future S p fut R)) =
          AList.update p X (entries (directory_results R)) \<and>
        (fut = Inr X \<or> (\<exists>e. X = error_result p e))"
proof (cases fut)
  case (Inl e)
  then have "entries (directory_results (completed_future S p fut R)) =
               AList.update p (error_result p e) (entries (directory_results R))"
    by (simp add: completed_future_def add_file_result_def)
  then show ?thesis by blast
next
  case fut: (Inr res)
  show ?thesis
  proof (cases "mark_processed S (state_manager R) p")
    case (Inl e)
    with fut have "entries (directory_results (completed_future S p fut R)) =
                     AList.update p (error_result p e) (entries (directory_results R))"
      by (simp add: completed_future_def add_file_result_def)
    then show ?thesis by blast
  next
    case (Inr st')
    with fut have "entries (directory_results (completed_future S p fut R)) =
                     AList.update p res (entries (directory_results R))"
      by (simp add: completed_future_def add_file_result_def)
    with fut show ?thesis by blast
  qed
qed

lemma as_completed_invariant:
  assumes "\<forall>(p, fr) \<in> set (entries (directory_results R)). P p fr"
    and "\<forall>p \<in> set order. (\<forall>e. P p (error_result p e)) \<and>
           (\<forall>st fr. process_file S E p proc st False = Inr fr \<longrightarrow> P p fr)"
  shows "\<forall>(p, fr) \<in> set (entries (directory_results
           (as_completed S E proc order views seen R))). P p fr"
  using assms
proof (induction order arbitrary: views seen R)
  case Nil
  then show ?case by simp
next
  case (Cons q order)
  define st_seen where
    "st_seen = seen ! min (case views of [] \<Rightarrow> 0 | v # _ \<Rightarrow> v) (length seen - 1)"
  define fut where "fut = process_file S E q proc st_seen False"
  define R' where "R' = completed_future S q fut R"
  from entries_completed_future [of S q fut R] obtain X where
    X: "entries (directory_results R') = AList.update q X (entries (directory_results R))"
    and shape: "fut = Inr X \<or> (\<exists>e. X = error_result q e)"
    unfolding R'_def by blast
  from shape Cons.prems(2) have "P q X"
    unfolding fut_def by auto
  with Cons.prems(1) X have "\<forall>(p, fr) \<in> set (entries (directory_results R')). P p fr"
    using set_update_subset [of q X "entries (directory_results R)"] by auto
  moreover from Cons.prems(2) have
    "\<forall>p \<in> set order. (\<forall>e. P p (error_result p e)) \<and>
       (\<forall>st fr. process_file S E p proc st False = Inr fr \<longrightarrow> P p fr)"
    by simp
  ultimately have "\<forall>(p, fr) \<in> set (entries (directory_results
      (as_completed S E proc order (tl views) (seen @ [state_manager R']) R'))). P p fr"
    by (rule Cons.IH)
  then show ?case
    by (simp add: Let_def R'_def fut_def st_seen_def)
qed

lemma left_right_not_labels:
  "''left'' \<notin> set (map channel_label idx) \<and> ''right'' \<notin> set (map channel_label idx)"
  by (auto simp: channel_label_def)

lemma process_file_returns:
  "is_processed S st p = Inr b \<Longrightarrow> \<exists>res. process_file S E p proc st par = Inr res"
  by (cases "from_wav E p") (simp_all add: process_file_def)

lemma map_of_update_same: "map_of (AList.update k v al) k = Some v"
  by (simp add: update_conv')

lemma completed_future_set_store:
  "completed_future set_state_manager p (Inr res) R =
     R\<lparr>directory_results := add_file_result (directory_results R) p res,
       state_manager := insert p (state_manager R),
       progress_tracker := update (progress_tracker R)\<rparr>"
  by (simp add: completed_future_def set_state_manager_def)

lemma unit_of_work_set_store:
  "process_file set_state_manager E p proc st False =
     Inr (unit_of_work set_state_manager E proc st p)"
  by (cases "from_wav E p")
     (simp_all add: unit_of_work_def process_file_def set_state_manager_def)

lemma unit_of_work_set_store_cong:
  "(p \<in> st) = (p \<in> st') \<Longrightarrow>
     unit_of_work set_state_manager E proc st p = unit_of_work set_state_manager E proc st' p"
  by (simp add: unit_of_work_def process_file_def set_state_manager_def)

lemma as_completed_set_store:
  assumes "distinct order"
    and "set order \<inter> fst ` set (entries (directory_results R)) = {}"
    and "\<forall>s \<in> set seen. \<forall>q \<in> set order. (q \<in> s) = (q \<in> st0)"
    and "\<forall>q \<in> set order. (q \<in> state_manager R) = (q \<in> st0)"
    and "seen \<noteq> []"
  shows "as_completed set_state_manager E proc order views seen R =
     R\<lparr>directory_results := (directory_results R)
          \<lparr>entries := entries (directory_results R) @
             map (\<lambda>p. (p, unit_of_work set_state_manager E proc st0 p)) order\<rparr>,
       state_manager := state_manager R \<union> set order,
       progress_tracker := (progress_tracker R)
          \<lparr>completed := completed (progress_tracker R) + length order\<rparr>\<rparr>"
  using assms
proof (induction order arbitrary: views seen R)
  case Nil
  then show ?case by simp
next
  case (Cons q order)
  define k where "k = min (case views of [] \<Rightarrow> 0 | v # _ \<Rightarrow> v) (length seen - 1)"
  define st_seen where "st_seen = seen ! k"
  from Cons.prems(5) have "k < length seen"
    by (cases seen) (simp_all add: k_def)
  then have "st_seen \<in> set seen"
    by (simp add: st_seen_def)
  with Cons.prems(3) have "(q \<in> st_seen) = (q \<in> st0)" by simp
  then have uow: "process_file set_state_manager E q proc st_seen False =
      Inr (unit_of_work set_state_manager E proc st0 q)"
    using unit_of_work_set_store [of E q proc st_seen]
      unit_of_work_set_store_cong [of q st_seen st0 E proc] by simp
  define R' where "R' = completed_future set_state_manager q
      (process_file set_state_manager E q proc st_seen False) R"
  from Cons.prems(2) have fresh: "q \<notin> fst ` set (entries (directory_results R))" by auto
  have R': "R' = R\<lparr>directory_results := (directory_results R)
                     \<lparr>entries := entries (directory_results R) @
                        [(q, unit_of_work set_state_manager E proc st0 q)]\<rparr>,
                   state_manager := insert q (state_manager R),
                   progress_tracker := update (progress_tracker R)\<rparr>"
    unfolding R'_def uow completed_future_set_store
    using fresh by (simp add: add_file_result_def update_fresh)
  have 1: "distinct order" using Cons.prems(1) by simp
  have 2: "set order \<inter> fst ` set (entries (directory_results R')) = {}"
    using Cons.prems(1,2) by (auto simp: R')
  have 3: "\<forall>s \<in> set (seen @ [state_manager R']). \<forall>p \<in> set order. (p \<in> s) = (p \<in> st0)"
    using Cons.prems(1,3,4) by (auto simp: R')
  have 4: "\<forall>p \<in> set order. (p \<in> state_manager R') = (p \<in> st0)"
    using Cons.prems(1,4) by (auto simp: R')
  have 5: "seen @ [state_manager R'] \<noteq> []" by simp
  have "as_completed set_state_manager E proc (q # order) views seen R =
        as_completed set_state_manager E proc order (tl views) (seen @ [state_manager R']) R'"
    by (simp add: Let_def R'_def st_seen_def k_def)
  also have "\<dots> = R'\<lparr>directory_results := (directory_results R')
          \<lparr>entries := entries (directory_results R') @
             map (\<lambda>p. (p, unit_of_work set_state_manager E proc st0 p)) order\<rparr>,
       state_manager := state_manager R' \<union> set order,
       progress_tracker := (progress_tracker R')
          \<lparr>completed := completed (progress_tracker R') + length order\<rparr>\<rparr>"
    by (rule Cons.IH [OF 1 2 3 4 5])
  also have "\<dots> = R\<lparr>directory_results := (directory_results R)
          \<lparr>entries := entries (directory_results R) @
             map (\<lambda>p. (p, unit_of_work set_state_manager E proc st0 p)) (q # order)\<rparr>,
       state_manager := state_manager R \<union> set (q # order),
       progress_tracker := (progress_tracker R)
          \<lparr>completed := completed (progress_tracker R) + length (q # order)\<rparr>\<rparr>"
    by (simp add: R' update_def)
  finally show ?case .
qed

lemma process_directory_set_store:
  assumes "listdir E directory = Inr names" and "directory_listing names"
    and "0 < max_workers self"
  shows "process_directory set_state_manager E self directory st0 picks views =
     Inr \<lparr>directory_results =
            \<lparr>directory_path = directory,
             entries = map (\<lambda>p. (p, unit_of_work set_state_manager E (processor self) st0 p))
                         (completion_order picks (wav_files directory names))\<rparr>,
          state_manager = st0 \<union> set (wav_files directory names),
          progress_tracker =
            \<lparr>total = length (wav_files directory names),
             completed = length (wav_files directory names),
             description = ''Processing files''\<rparr>\<rparr>"
proof -
  let ?files = "wav_files directory names"
  let ?order = "completion_order picks ?files"
  have d: "distinct ?order"
    using distinct_wav_files [OF assms(2)] by (simp add: distinct_completion_order)
  have "as_completed set_state_manager E (processor self) ?order views [st0]
               (start_run directory st0 ?files) =
     (start_run directory st0 ?files)\<lparr>directory_results :=
          (directory_results (start_run directory st0 ?files))
          \<lparr>entries := entries (directory_results (start_run directory st0 ?files)) @
             map (\<lambda>p. (p, unit_of_work set_state_manager E (processor self) st0 p)) ?order\<rparr>,
       state_manager := state_manager (start_run directory st0 ?files) \<union> set ?order,
       progress_tracker := (progress_tracker (start_run directory st0 ?files))
          \<lparr>completed := completed (progress_tracker (start_run directory st0 ?files))
             + length ?order\<rparr>\<rparr>"
    using as_completed_set_store [where order = ?order and R = "start_run directory st0 ?files"
        and seen = "[st0]" and ?st0.0 = st0 and E = E and proc = "processor self"
        and views = views, OF d]
    by (simp add: start_run_def DirectoryAnalysisResults_def)
  with assms(1,3) show ?thesis
    by (simp add: process_directory_def Let_def start_run_def DirectoryAnalysisResults_def
        ProgressTracker_def set_completion_order length_completion_order)
qed

lemma map_of_graph: "p \<in> set xs \<Longrightarrow> map_of (map (\<lambda>p. (p, f p)) xs) p = Some (f p)"
  by (induction xs) auto

lemma unit_of_work_skipped:
  "p \<in> st \<Longrightarrow> \<not> force_reprocess proc \<Longrightarrow>
     unit_of_work set_state_manager E proc st p = FileAnalysisResults p"
  by (simp add: unit_of_work_def process_file_def set_state_manager_def)

lemma unit_of_work_load_error:
  "force_reprocess proc \<or> p \<notin> st \<Longrightarrow> from_wav E p = Inl e \<Longrightarrow>
     unit_of_work set_state_manager E proc st p = error_result p e"
  by (auto simp: unit_of_work_def process_file_def set_state_manager_def error_result_def)

lemma unit_of_work_processed:
  "force_reprocess proc \<or> p \<notin> st \<Longrightarrow> from_wav E p = Inr a \<Longrightarrow>
     unit_of_work set_state_manager E proc st p = process E proc a False"
  by (auto simp: unit_of_work_def process_file_def set_state_manager_def)

lemma process_all_names:
  assumes "snd (metrics_loop E (metrics self) a parallel (FileAnalysisResults (source_path a))) = None"
    and "distinct (map fst (metrics self))"
  shows "map fst (metric_results (process E self a parallel)) = enabled_names (metrics self)"
proof -
  obtain fr where
    loop: "metrics_loop E (metrics self) a parallel (FileAnalysisResults (source_path a))
             = (fr, None)"
    using assms(1)
    by (cases "metrics_loop E (metrics self) a parallel (FileAnalysisResults (source_path a))")
       simp
  then have "process E self a parallel = fr"
    by (simp add: process_def)
  with metrics_loop_names [OF loop assms(2)] show ?thesis
    by (simp add: FileAnalysisResults_def)
qed

lemma length_filter_neq:
  assumes "distinct xs" and "x \<in> set xs"
  shows "length (filter (\<lambda>y. y \<noteq> x) xs) = length xs - 1"
    and "length (filter (\<lambda>y. y = x) xs) = 1"
proof -
  have "{y. y = x} \<inter> set xs = {x}" using assms(2) by auto
  then show one: "length (filter (\<lambda>y. y = x) xs) = 1"
    using assms(1) by (simp add: distinct_length_filter)
  have "length (filter (\<lambda>y. y = x) xs) + length (filter (\<lambda>y. \<not> y = x) xs) = length xs"
    by (rule sum_length_filter_compl)
  with one show "length (filter (\<lambda>y. y \<noteq> x) xs) = length xs - 1" by simp
qed

lemma process_directory_no_workers:
  "listdir E directory = Inr names \<Longrightarrow> max_workers self \<le> 0 \<Longrightarrow>
     process_directory S E self directory st picks views =
       Inl (Exception ''max_workers must be greater than 0'')"
  by (simp add: process_directory_def)

lemma map_of_as_completed_other:
  "p \<notin> set order \<Longrightarrow>
     map_of (entries (directory_results (as_completed S E proc order views seen R))) p =
     map_of (entries (directory_results R)) p"
  by (induction order arbitrary: views seen R)
     (simp_all add: Let_def map_of_completed_future_other)

lemma state_manager_calls_paths:
  "map fst (state_manager_calls S E proc order views seen R) = order"
  by (induction order arbitrary: views seen R) (simp_all add: Let_def)

lemma failed_call_entry:
  assumes "is_processed S st_seen p = Inl e \<or>
           ((\<exists>b. is_processed S st_seen p = Inr b) \<and> mark_processed S (state_manager R) p = Inl e)"
  shows "map_of (entries (directory_results
           (completed_future S p (process_file S E p proc st_seen False) R))) p
         = Some (error_result p e)"
proof (cases "is_processed S st_seen p")
  case (Inl e')
  with assms have "process_file S E p proc st_seen False = Inl e"
    by (auto simp: process_file_def)
  then show ?thesis
    by (simp add: completed_future_def add_file_result_def map_of_update_same)
next
  case (Inr b)
  then have "\<exists>res. process_file S E p proc st_seen False = Inr res"
    by (rule process_file_returns)
  then obtain res where "process_file S E p proc st_seen False = Inr res" ..
  moreover from Inr assms have "mark_processed S (state_manager R) p = Inl e" by auto
  ultimately show ?thesis
    by (simp add: completed_future_def add_file_result_def map_of_update_same)
qed

lemma as_completed_failed_call:
  assumes "distinct order"
    and "(p, st_seen, st_mark) \<in> set (state_manager_calls S E proc order views seen R)"
    and "is_processed S st_seen p = Inl e \<or>
         ((\<exists>b. is_processed S st_seen p = Inr b) \<and> mark_processed S st_mark p = Inl e)"
  shows "map_of (entries (directory_results (as_completed S E proc order views seen R))) p
           = Some (error_result p e)"
  using assms(1,2)
proof (induction order arbitrary: views seen R)
  case Nil
  then show ?case by simp
next
  case (Cons q order)
  define st_q where
    "st_q = seen ! min (case views of [] \<Rightarrow> 0 | v # _ \<Rightarrow> v) (length seen - 1)"
  define R' where "R' = completed_future S q (process_file S E q proc st_q False) R"
  from Cons.prems(2) consider
    (head) "p = q" "st_seen = st_q" "st_mark = state_manager R"
    | (tail) "(p, st_seen, st_mark) \<in>
        set (state_manager_calls S E proc order (tl views) (seen @ [state_manager R']) R')"
    by (auto simp: Let_def st_q_def R'_def)
  then have "map_of (entries (directory_results
      (as_completed S E proc order (tl views) (seen @ [state_manager R']) R'))) p
      = Some (error_result p e)"
  proof cases
    case head
    with Cons.prems(1) have "p \<notin> set order" by simp
    then have "map_of (entries (directory_results
        (as_completed S E proc order (tl views) (seen @ [state_manager R']) R'))) p
        = map_of (entries (directory_results R')) p"
      by (rule map_of_as_completed_other)
    also have "\<dots> = Some (error_result p e)"
      unfolding R'_def using assms(3) head failed_call_entry [of S st_q q e R E proc] by simp
    finally show ?thesis .
  next
    case tail
    from Cons.prems(1) have "distinct order" by simp
    from Cons.IH [OF this tail] show ?thesis .
  qed
  then show ?case
    by (simp add: Let_def st_q_def R'_def)
qed

lemma two_results_keys:
  assumes "map fst xs = [a, b]"
    and "\<forall>(name, mcr) \<in> set xs. Q name \<and> map fst mcr = k"
  shows "map (map fst \<circ> snd) xs = [k, k]"
proof -
  from assms(1) obtain x y where "xs = [x, y]"
    by (auto simp: map_eq_Cons_conv)
  with assms(2) show ?thesis
    by (cases x, cases y) simp
qed

subsection \<open>The concrete installation, evaluated\<close>

lemmas eval_defs =
  process_def process_metric_def two_channel_pool_def process_channel_def segment_signal_def
  analyze_segment_def getitem_def left_def right_def channels_def is_enabled_def
  add_metric_result_def add_channel_result_def MultiChannelResult_def FileAnalysisResults_def
  channel_label_def str_nat.simps digit_char_def demo_def demo_processor_def on_def off_def
  roughness_processor_def

lemma demo_process_seq:
  "process demo demo_processor \<lparr>source_path = p, channel_data = [2, 3]\<rparr> False =
     \<lparr>file_path = p,
      metric_results =
        [(''loudness'',
          [(''channel_1'', \<lparr>payload = 12, channel = ''channel_1''\<rparr>),
           (''channel_2'', \<lparr>payload = 13, channel = ''channel_2''\<rparr>)]),
         (''sharpness'',
          [(''channel_1'', \<lparr>payload = 22, channel = ''channel_1''\<rparr>),
           (''channel_2'', \<lparr>payload = 23, channel = ''channel_2''\<rparr>)])],
      errors = []\<rparr>"
  by (simp add: eval_defs upt_rec)

lemma demo_process_par:
  "process demo demo_processor \<lparr>source_path = p, channel_data = [2, 3]\<rparr> True =
     \<lparr>file_path = p,
      metric_results =
        [(''loudness'',
          [(''left'', \<lparr>payload = 12, channel = ''left''\<rparr>),
           (''right'', \<lparr>payload = 13, channel = ''right''\<rparr>)]),
         (''sharpness'',
          [(''left'', \<lparr>payload = 22, channel = ''left''\<rparr>),
           (''right'', \<lparr>payload = 23, channel = ''right''\<rparr>)])],
      errors = []\<rparr>"
  by (simp add: eval_defs)

lemma demo_process_c:
  "process demo demo_processor \<lparr>source_path = p, channel_data = [0, 4]\<rparr> parallel =
     \<lparr>file_path = p, metric_results = [], errors = []\<rparr>"
  by (simp add: eval_defs upt_rec)

lemma demo_process_roughness:
  "process demo roughness_processor \<lparr>source_path = p, channel_data = [2, 3]\<rparr> False =
     \<lparr>file_path = p,
      metric_results =
        [(''loudness'',
          [(''channel_1'', \<lparr>payload = 12, channel = ''channel_1''\<rparr>),
           (''channel_2'', \<lparr>payload = 13, channel = ''channel_2''\<rparr>)])],
      errors = []\<rparr>"
  by (simp add: eval_defs upt_rec)

lemma demo_from_wav:
  "from_wav demo p =
     (if p = ''d/a.wav'' then Inr \<lparr>source_path = p, channel_data = [2, 3]\<rparr>
      else if p = ''d/c.wav'' then Inr \<lparr>source_path = p, channel_data = [0, 4]\<rparr>
      else if p = ''e/a.wav'' then Inr \<lparr>source_path = p, channel_data = [5, 6]\<rparr>
      else if p = ''e/c.wav'' then Inr \<lparr>source_path = p, channel_data = [7]\<rparr>
      else Inl (Exception ''not a wav file''))"
  by (simp add: demo_def)

lemma demo_listdir:
  "listdir demo d =
     (if d = ''d'' then Inr [''a.wav'', ''notes.txt'', ''b.wav'', ''c.wav'']
      else if d = ''e'' then Inr [''a.wav'', ''b.wav'', ''c.wav'']
      else Inl (Exception ''no such directory''))"
  by (simp add: demo_def)

lemma demo_wav_files_d:
  "wav_files ''d'' [''a.wav'', ''notes.txt'', ''b.wav'', ''c.wav''] =
     [''d/a.wav'', ''d/b.wav'', ''d/c.wav'']"
  by (simp add: wav_files_def endswith_def path_join_def)

lemma demo_wav_files_e:
  "wav_files ''e'' [''a.wav'', ''b.wav'', ''c.wav''] = [''e/a.wav'', ''e/b.wav'', ''e/c.wav'']"
  by (simp add: wav_files_def endswith_def path_join_def)

lemmas run_defs =
  process_directory_def Let_def process_file_def completed_future_def start_run_def
  ProgressTracker_def DirectoryAnalysisResults_def add_file_result_def add_error_def
  error_result_def update_def FileAnalysisResults_def demo_engine_def demo_listdir
  demo_from_wav demo_wav_files_d demo_wav_files_e

lemma demo_workers: "0 < max_workers demo_engine"
  by (simp add: demo_engine_def)

lemma force_demo_processor: "force_reprocess demo_processor = False"
  by (simp add: demo_processor_def)

lemma demo_run_d:
  "process_directory set_state_manager demo demo_engine ''d'' {} [] [] =
     Inr \<lparr>directory_results =
            \<lparr>directory_path = ''d'',
             entries =
               [(''d/a.wav'',
                 \<lparr>file_path = ''d/a.wav'',
                  metric_results =
                    [(''loudness'',
                      [(''channel_1'', \<lparr>payload = 12, channel = ''channel_1''\<rparr>),
                       (''channel_2'', \<lparr>payload = 13, channel = ''channel_2''\<rparr>)]),
                     (''sharpness'',
                      [(''channel_1'', \<lparr>payload = 22, channel = ''channel_1''\<rparr>),
                       (''channel_2'', \<lparr>payload = 23, channel = ''channel_2''\<rparr>)])],
                  errors = []\<rparr>),
                (''d/b.wav'',
                 \<lparr>file_path = ''d/b.wav'', metric_results = [], errors = [''not a wav file'']\<rparr>),
                (''d/c.wav'',
                 \<lparr>file_path = ''d/c.wav'', metric_results = [], errors = []\<rparr>)]\<rparr>,
          state_manager = {''d/c.wav'', ''d/b.wav'', ''d/a.wav''},
          progress_tracker =
            \<lparr>total = 3, completed = 3, description = ''Processing files''\<rparr>\<rparr>"
  by (simp add: run_defs set_state_manager_def force_demo_processor demo_process_seq
      demo_process_c)

lemma demo_run_d_again:
  "process_directory set_state_manager demo demo_engine ''d''
       {''d/c.wav'', ''d/b.wav'', ''d/a.wav''} [] [] =
     Inr \<lparr>directory_results =
            \<lparr>directory_path = ''d'',
             entries =
               [(''d/a.wav'', \<lparr>file_path = ''d/a.wav'', metric_results = [], errors = []\<rparr>),
                (''d/b.wav'', \<lparr>file_path = ''d/b.wav'', metric_results = [], errors = []\<rparr>),
                (''d/c.wav'', \<lparr>file_path = ''d/c.wav'', metric_results = [], errors = []\<rparr>)]\<rparr>,
          state_manager = {''d/c.wav'', ''d/b.wav'', ''d/a.wav''},
          progress_tracker =
            \<lparr>total = 3, completed = 3, description = ''Processing files''\<rparr>\<rparr>"
  by (simp add: run_defs set_state_manager_def force_demo_processor insert_absorb)

lemma demo_run_failing:
  "process_directory failing_state_manager demo demo_engine ''d'' {} [] [] =
     Inr \<lparr>directory_results =
            \<lparr>directory_path = ''d'',
             entries =
               [(''d/a.wav'',
                 \<lparr>file_path = ''d/a.wav'', metric_results = [], errors = [''disk full'']\<rparr>),
                (''d/b.wav'',
                 \<lparr>file_path = ''d/b.wav'', metric_results = [], errors = [''not a wav file'']\<rparr>),
                (''d/c.wav'',
                 \<lparr>file_path = ''d/c.wav'', metric_results = [],
                  errors = [''state file unreadable'']\<rparr>)]\<rparr>,
          state_manager = {''d/b.wav''},
          progress_tracker =
            \<lparr>total = 3, completed = 3, description = ''Processing files''\<rparr>\<rparr>"
  by (simp add: run_defs failing_state_manager_def force_demo_processor demo_process_seq
      demo_process_c)

lemma demo_process_mono:
  "process demo demo_processor \<lparr>source_path = p, channel_data = [7]\<rparr> False =
     \<lparr>file_path = p,
      metric_results =
        [(''loudness'', [(''channel_1'', \<lparr>payload = 17, channel = ''channel_1''\<rparr>)]),
         (''sharpness'', [(''channel_1'', \<lparr>payload = 27, channel = ''channel_1''\<rparr>)])],
      errors = []\<rparr>"
  by (simp add: eval_defs upt_rec)

lemma demo_loop_e_a:
  "snd (metrics_loop demo (metrics demo_processor) \<lparr>source_path = p, channel_data = [5, 6]\<rparr>
          False (FileAnalysisResults p)) = None"
  by (simp add: eval_defs upt_rec)

lemma demo_loop_e_c:
  "snd (metrics_loop demo (metrics demo_processor) \<lparr>source_path = p, channel_data = [7]\<rparr>
          False (FileAnalysisResults p)) = None"
  by (simp add: eval_defs upt_rec)

lemma demo_listing_e: "directory_listing [''a.wav'', ''b.wav'', ''c.wav'']"
  by (simp add: directory_listing_def)

lemma demo_run_e_resumed:
  "process_directory set_state_manager demo demo_engine ''e'' {''e/a.wav''} [] [] =
     Inr \<lparr>directory_results =
            \<lparr>directory_path = ''e'',
             entries =
               [(''e/a.wav'', \<lparr>file_path = ''e/a.wav'', metric_results = [], errors = []\<rparr>),
                (''e/b.wav'',
                 \<lparr>file_path = ''e/b.wav'', metric_results = [], errors = [''not a wav file'']\<rparr>),
                (''e/c.wav'',
                 \<lparr>file_path = ''e/c.wav'',
                  metric_results =
                    [(''loudness'', [(''channel_1'', \<lparr>payload = 17, channel = ''channel_1''\<rparr>)]),
                     (''sharpness'', [(''channel_1'', \<lparr>payload = 27, channel = ''channel_1''\<rparr>)])],
                  errors = []\<rparr>)]\<rparr>,
          state_manager = {''e/c.wav'', ''e/b.wav'', ''e/a.wav''},
          progress_tracker =
            \<lparr>total = 3, completed = 3, description = ''Processing files''\<rparr>\<rparr>"
  by (simp add: run_defs set_state_manager_def force_demo_processor demo_process_mono
      insert_absorb)

lemma demo_metric_computes:
  assumes "name = ''loudness'' \<or> name = ''sharpness''" and "0 \<notin> set chans"
  shows "\<exists>metric0 metric.
           get_metric demo name = Inr metric0 \<and> configure demo metric0 cfg = Inr metric \<and>
           (\<forall>s \<in> set chans. \<exists>r. calculate demo metric s = Inr r)"
proof -
  from assms(1) obtain m where g: "get_metric demo name = Inr m"
    by (auto simp: demo_def)
  have c: "configure demo m cfg = Inr m"
    by (simp add: demo_def)
  have "\<exists>r. calculate demo m s = Inr r" if "s \<in> set chans" for s
  proof -
    have "s \<noteq> 0"
    proof
      assume "s = 0"
      with that assms(2) show False by simp
    qed
    then show ?thesis by (simp add: demo_def)
  qed
  with g c show ?thesis by blast
qed

lemma demo_processor_computes:
  assumes "0 \<notin> set (channel_data a)"
  shows "\<forall>(name, cfg) \<in> set (metrics demo_processor). is_enabled cfg \<longrightarrow>
       (\<exists>metric0 metric.
          get_metric demo name = Inr metric0 \<and> configure demo metric0 cfg = Inr metric \<and>
          (\<forall>s \<in> set (channel_data a). \<exists>r. calculate demo metric s = Inr r))"
proof (clarify)
  fix name cfg
  assume "(name, cfg) \<in> set (metrics demo_processor)" and "is_enabled cfg"
  then have "name = ''loudness'' \<or> name = ''sharpness''"
    by (auto simp: demo_processor_def is_enabled_def off_def)
  then show "\<exists>metric0 metric.
          get_metric demo name = Inr metric0 \<and> configure demo metric0 cfg = Inr metric \<and>
          (\<forall>s \<in> set (channel_data a). \<exists>r. calculate demo metric s = Inr r)"
    using assms by (rule demo_metric_computes)
qed

lemma demo_order_d:
  "completion_order [2, 0] [''d/a.wav'', ''d/b.wav'', ''d/c.wav'']
     = [''d/c.wav'', ''d/a.wav'', ''d/b.wav'']"
  by (simp add: Let_def)

lemma demo_listing_d: "directory_listing [''a.wav'', ''notes.txt'', ''b.wav'', ''c.wav'']"
  by (simp add: directory_listing_def)

lemma demo_calls_failing:
  "state_manager_calls failing_state_manager demo (processor demo_engine)
      [''d/c.wav'', ''d/a.wav'', ''d/b.wav''] [0, 2] [{}]
      (start_run ''d'' {} [''d/a.wav'', ''d/b.wav'', ''d/c.wav''])
   = [(''d/c.wav'', {}, {}), (''d/a.wav'', {}, {}), (''d/b.wav'', {}, {})]"
  by (simp add: run_defs failing_state_manager_def force_demo_processor)

lemma demo_calls_full:
  "state_manager_calls full_state_manager demo (processor demo_engine)
      [''d/a.wav'', ''d/b.wav'', ''d/c.wav''] [] [{}]
      (start_run ''d'' {} [''d/a.wav'', ''d/b.wav'', ''d/c.wav''])
   = [(''d/a.wav'', {}, {}), (''d/b.wav'', {}, {''d/a.wav''}), (''d/c.wav'', {}, {''d/a.wav''})]"
  by (simp add: run_defs full_state_manager_def force_demo_processor)

section \<open>The claims\<close>

subsection \<open>The channel processor\<close>

text \<open>
  C10. \<^verbatim>\<open>_process_channel\<close> segments the channel's signal into exactly one
  segment, the whole signal; the metric's calculation is invoked once per segment, in
  order (the results are the calculations of the segments, one for one, and the loop
  raises only what a calculation raised); and the value returned is the calculation of
  the whole channel, which is the first segment's result, with its attribute
  \<^verbatim>\<open>channel\<close> set to the channel's name.
\<close>

theorem process_channel_first_segment:
  "segment_signal chan = [chan] \<and>
   (case analyze_segments E metric segs [] of
      Inl e \<Rightarrow> \<exists>s \<in> set segs. calculate E metric s = Inl e
    | Inr results \<Rightarrow> map Inr results = map (calculate E metric) segs) \<and>
   process_channel E metric chan name =
     (case calculate E metric chan of
        Inl e \<Rightarrow> Inl e
      | Inr res \<Rightarrow> Inr (res\<lparr>channel := name\<rparr>))"
  using analyze_segments_results [where E = E and metric = metric and segs = segs and acc = "[]"]
  by (simp add: segment_signal_def process_channel_calculate split: sum.splits)

theorem process_channel_first_segment_witness:
  "segment_signal (5::nat) = [5] \<and>
   analyze_segments demo 10 [5, 7] [] =
     Inr [\<lparr>payload = 15, channel = []\<rparr>, \<lparr>payload = 17, channel = []\<rparr>] \<and>
   process_channel demo 10 5 ''channel_1'' = Inr \<lparr>payload = 15, channel = ''channel_1''\<rparr> \<and>
   process_channel demo 10 0 ''channel_1'' = Inl (Exception ''empty signal'')"
  using process_channel_first_segment
      [where chan = 5 and E = demo and metric = 10 and segs = "[5, 7]" and name = "''channel_1''"]
    process_channel_first_segment
      [where chan = 0 and E = demo and metric = 10 and segs = "[]" and name = "''channel_1''"]
  by (simp add: demo_def analyze_segment_def)

subsection \<open>The file processor\<close>

text \<open>
  C7. Every multi-channel result that \<^verbatim>\<open>process\<close> records belongs to an enabled
  metric and has exactly the keys \<open>left\<close>, \<open>right\<close> when \<open>parallel\<close> is
  requested and the signal has exactly two channels, and exactly the keys
  \<open>channel_1\<close>, ..., \<open>channel_k\<close> in index order for a signal of \<open>k\<close> channels
  otherwise. And \<^verbatim>\<open>process\<close> does produce such a result for every enabled
  metric, in configuration order, whenever the collaborators do their part: the
  registry knows every enabled metric, each accepts its configuration, and each
  calculates a result for every channel of the signal (the configuration being a
  dictionary, its names distinct).
\<close>

theorem process_keys:
  "(\<forall>(name, mcr) \<in> set (metric_results (process E self a parallel)).
      name \<in> set (enabled_names (metrics self)) \<and> map fst mcr = channel_keys parallel a) \<and>
   (distinct (map fst (metrics self)) \<and>
    (\<forall>(name, cfg) \<in> set (metrics self). is_enabled cfg \<longrightarrow>
       (\<exists>metric0 metric.
          get_metric E name = Inr metric0 \<and> configure E metric0 cfg = Inr metric \<and>
          (\<forall>s \<in> set (channel_data a). \<exists>r. calculate E metric s = Inr r)))
      \<longrightarrow> map fst (metric_results (process E self a parallel)) = enabled_names (metrics self))"
proof -
  obtain fr x where
    loop: "metrics_loop E (metrics self) a parallel (FileAnalysisResults (source_path a)) = (fr, x)"
    by (cases "metrics_loop E (metrics self) a parallel (FileAnalysisResults (source_path a))")
  then have proc: "process E self a parallel = fr"
    by (simp add: process_def split: option.splits)
  have "\<forall>(name, mcr) \<in> set (metric_results fr).
          name \<in> set (enabled_names (metrics self)) \<and> map fst mcr = channel_keys parallel a"
  proof (rule metrics_loop_invariant [OF loop])
    show "\<forall>(name, mcr) \<in> set (metric_results (FileAnalysisResults (source_path a))).
            name \<in> set (enabled_names (metrics self)) \<and> map fst mcr = channel_keys parallel a"
      by (simp add: FileAnalysisResults_def)
    show "\<forall>(name, cfg) \<in> set (metrics self). is_enabled cfg \<longrightarrow>
            (\<forall>mcr. process_metric E name cfg a parallel = Inr mcr \<longrightarrow>
               name \<in> set (enabled_names (metrics self)) \<and> map fst mcr = channel_keys parallel a)"
      by (force simp: enabled_names_def dest: process_metric_keys)
  qed
  moreover have "map fst (metric_results (process E self a parallel)) = enabled_names (metrics self)"
    if d: "distinct (map fst (metrics self))"
      and ok: "\<forall>(name, cfg) \<in> set (metrics self). is_enabled cfg \<longrightarrow>
        (\<exists>metric0 metric.
           get_metric E name = Inr metric0 \<and> configure E metric0 cfg = Inr metric \<and>
           (\<forall>s \<in> set (channel_data a). \<exists>r. calculate E metric s = Inr r))"
  proof -
    from ok have "snd (metrics_loop E (metrics self) a parallel
        (FileAnalysisResults (source_path a))) = None"
      by (rule metrics_loop_succeeds)
    then show ?thesis using d by (rule process_all_names)
  qed
  ultimately show ?thesis
    using proc by blast
qed

theorem process_keys_witness:
  "map fst (metric_results (process demo demo_processor
       \<lparr>source_path = ''x.wav'', channel_data = [2, 3, 4]\<rparr> False)) = [''loudness'', ''sharpness''] \<and>
   map (map fst \<circ> snd) (metric_results (process demo demo_processor
       \<lparr>source_path = ''x.wav'', channel_data = [2, 3, 4]\<rparr> False))
     = [[''channel_1'', ''channel_2'', ''channel_3''],
        [''channel_1'', ''channel_2'', ''channel_3'']] \<and>
   map fst (metric_results (process demo demo_processor
       \<lparr>source_path = ''x.wav'', channel_data = [2, 3]\<rparr> True)) = [''loudness'', ''sharpness''] \<and>
   map (map fst \<circ> snd) (metric_results (process demo demo_processor
       \<lparr>source_path = ''x.wav'', channel_data = [2, 3]\<rparr> True))
     = [[''left'', ''right''], [''left'', ''right'']]"
proof -
  let ?a3 = "\<lparr>source_path = ''x.wav'', channel_data = [2::nat, 3, 4]\<rparr>"
  let ?a2 = "\<lparr>source_path = ''x.wav'', channel_data = [2::nat, 3]\<rparr>"
  have d: "distinct (map fst (metrics demo_processor))"
    by (simp add: demo_processor_def)
  have ok3: "\<forall>(name, cfg) \<in> set (metrics demo_processor). is_enabled cfg \<longrightarrow>
       (\<exists>metric0 metric.
          get_metric demo name = Inr metric0 \<and> configure demo metric0 cfg = Inr metric \<and>
          (\<forall>s \<in> set (channel_data ?a3). \<exists>r. calculate demo metric s = Inr r))"
    by (rule demo_processor_computes) simp
  have ok2: "\<forall>(name, cfg) \<in> set (metrics demo_processor). is_enabled cfg \<longrightarrow>
       (\<exists>metric0 metric.
          get_metric demo name = Inr metric0 \<and> configure demo metric0 cfg = Inr metric \<and>
          (\<forall>s \<in> set (channel_data ?a2). \<exists>r. calculate demo metric s = Inr r))"
    by (rule demo_processor_computes) simp
  have names: "enabled_names (metrics demo_processor) = [''loudness'', ''sharpness'']"
    by (simp add: demo_processor_def enabled_names_def is_enabled_def on_def off_def)
  have k3: "channel_keys False ?a3 = [''channel_1'', ''channel_2'', ''channel_3'']"
    by (simp add: channel_keys_def channels_def channel_label_def str_nat.simps digit_char_def
        upt_rec)
  have k2: "channel_keys True ?a2 = [''left'', ''right'']"
    by (simp add: channel_keys_def channels_def)
  note w3 = process_keys [of demo demo_processor ?a3 False, unfolded names k3]
  note w2 = process_keys [of demo demo_processor ?a2 True, unfolded names k2]
  note n3 = mp [OF conjunct2 [OF w3] conjI [OF d ok3]]
  note n2 = mp [OF conjunct2 [OF w2] conjI [OF d ok2]]
  note e3 = two_results_keys [OF n3 conjunct1 [OF w3]]
  note e2 = two_results_keys [OF n2 conjunct1 [OF w2]]
  from n3 e3 n2 e2 show ?thesis
    by (intro conjI)
qed

text \<open>
  C3. At the failing input of this claim the registry does not know the second of three
  configured metrics. \<^verbatim>\<open>process\<close> returns without raising, keeps the result of
  the first metric and processes no later metric, as the claim says; but the error list
  of the returned results is empty: the handler of \<^verbatim>\<open>process\<close> logs the exception
  and does not append it.
\<close>

theorem process_error_not_recorded:
  "get_metric demo ''roughness'' = Inl (Exception ''unknown metric'') \<and>
   process demo roughness_processor \<lparr>source_path = ''d/a.wav'', channel_data = [2, 3]\<rparr> False =
     \<lparr>file_path = ''d/a.wav'',
      metric_results =
        [(''loudness'',
          [(''channel_1'', \<lparr>payload = 12, channel = ''channel_1''\<rparr>),
           (''channel_2'', \<lparr>payload = 13, channel = ''channel_2''\<rparr>)])],
      errors = []\<rparr>"
  by (simp add: demo_process_roughness) (simp add: demo_def)

text \<open>
  C6, as stated, fails. On the sequential path the calculation of \<open>loudness\<close> raises
  for the first channel of a two-channel signal; its calculation for the second channel
  and both calculations of \<open>sharpness\<close> would succeed. The returned results hold no
  multi-channel result at all: none for \<open>loudness\<close> in which the failure could be
  recorded, and none for \<open>sharpness\<close>.
\<close>

theorem calculation_error_not_isolated:
  "calculate demo 10 0 = Inl (Exception ''empty signal'') \<and>
   calculate demo 10 4 = Inr \<lparr>payload = 14, channel = []\<rparr> \<and>
   calculate demo 20 0 = Inr \<lparr>payload = 20, channel = []\<rparr> \<and>
   calculate demo 20 4 = Inr \<lparr>payload = 24, channel = []\<rparr> \<and>
   metric_results (process demo demo_processor
      \<lparr>source_path = ''d/c.wav'', channel_data = [0, 4]\<rparr> False) = []"
  by (simp add: demo_process_c) (simp add: demo_def)

text \<open>
  C6, amended. When the calculation of an enabled metric raises for some channel, on
  the sequential path as on the two-channel path, the exception ends the processing of
  the file's metrics: the metric results that \<^verbatim>\<open>process\<close> returns are those it
  returns for the metrics configured before that metric alone, so that they hold a
  multi-channel result for none but enabled metrics configured before it, and none in
  which the failure is recorded.
\<close>

theorem calculation_error_aborts_file:
  assumes "metrics self = pre @ (name, cfg) # post"
    and "is_enabled cfg"
    and "get_metric E name = Inr metric0"
    and "configure E metric0 cfg = Inr metric"
    and "i < channels a"
    and "calculate E metric (channel_data a ! i) = Inl e"
  shows "metric_results (process E self a parallel) =
           metric_results (process E (self\<lparr>metrics := pre\<rparr>) a parallel) \<and>
         fst ` set (metric_results (process E self a parallel)) \<subseteq> set (enabled_names pre)"
proof -
  from process_metric_fails [OF assms(3-6)] obtain e' where
    "process_metric E name cfg a parallel = Inl e'" by blast
  from process_aborts_at_failure [OF assms(1,2) this]
  have eq: "process E self a parallel = process E (self\<lparr>metrics := pre\<rparr>) a parallel" .
  moreover have "fst ` set (metric_results (process E (self\<lparr>metrics := pre\<rparr>) a parallel))
                   \<subseteq> set (enabled_names pre)"
    using process_names [of E "self\<lparr>metrics := pre\<rparr>" a parallel] by simp
  ultimately show ?thesis by simp
qed

theorem calculation_error_aborts_file_witness:
  "metric_results (process demo
      \<lparr>metrics = [(''sharpness'', on), (''loudness'', on), (''tonality'', on)],
       force_reprocess = False\<rparr>
      \<lparr>source_path = ''d/c.wav'', channel_data = [0, 4]\<rparr> False) =
   metric_results (process demo \<lparr>metrics = [(''sharpness'', on)], force_reprocess = False\<rparr>
      \<lparr>source_path = ''d/c.wav'', channel_data = [0, 4]\<rparr> False) \<and>
   fst ` set (metric_results (process demo
      \<lparr>metrics = [(''sharpness'', on), (''loudness'', on), (''tonality'', on)],
       force_reprocess = False\<rparr>
      \<lparr>source_path = ''d/c.wav'', channel_data = [0, 4]\<rparr> False)) \<subseteq> {''sharpness''}"
proof -
  have h1: "metrics \<lparr>metrics = [(''sharpness'', on), (''loudness'', on), (''tonality'', on)],
                     force_reprocess = False\<rparr>
              = [(''sharpness'', on)] @ (''loudness'', on) # [(''tonality'', on)]"
    by simp
  have h2: "is_enabled on"
    by (simp add: on_def is_enabled_def)
  have h3: "get_metric demo ''loudness'' = Inr 10"
    by (simp add: demo_def)
  have h4: "configure demo 10 on = Inr 10"
    by (simp add: demo_def)
  have h5: "0 < channels \<lparr>source_path = ''d/c.wav'', channel_data = [0::nat, 4]\<rparr>"
    by (simp add: channels_def)
  have h6: "calculate demo 10
              (channel_data \<lparr>source_path = ''d/c.wav'', channel_data = [0::nat, 4]\<rparr> ! 0)
              = Inl (Exception ''empty signal'')"
    by (simp add: demo_def)
  have names: "set (enabled_names [(''sharpness'', on)]) = {''sharpness''}"
    by (simp add: enabled_names_def h2)
  note w = calculation_error_aborts_file [OF h1 h2 h3 h4 h5 h6, of False]
  from w have eq: "metric_results (process demo
      \<lparr>metrics = [(''sharpness'', on), (''loudness'', on), (''tonality'', on)],
       force_reprocess = False\<rparr>
      \<lparr>source_path = ''d/c.wav'', channel_data = [0, 4]\<rparr> False) =
   metric_results (process demo \<lparr>metrics = [(''sharpness'', on)], force_reprocess = False\<rparr>
      \<lparr>source_path = ''d/c.wav'', channel_data = [0, 4]\<rparr> False)"
    by simp
  from w have sub: "fst ` set (metric_results (process demo
      \<lparr>metrics = [(''sharpness'', on), (''loudness'', on), (''tonality'', on)],
       force_reprocess = False\<rparr>
      \<lparr>source_path = ''d/c.wav'', channel_data = [0, 4]\<rparr> False)) \<subseteq> {''sharpness''}"
    unfolding names by (rule conjunct2)
  from eq sub show ?thesis by (rule conjI)
qed

subsection \<open>The batch engine\<close>

text \<open>
  C8. For a run over the \<open>N\<close> eligible files of a directory by an engine with a
  positive worker count, whatever that count, the state manager, the collaborators and
  the schedule (the completion order and what each worker saw): the run returns; the progress tracker is created with total \<open>N\<close>; after
  \<open>k\<close> handled completions, for every \<open>k\<close> up to \<open>N\<close>, its total is \<open>N\<close>
  and its count is \<open>k\<close>, so the count goes from 0 to \<open>N\<close> by one step per
  enumerated file, whether the file was skipped, succeeded or failed; and the count of
  the returned run is \<open>N\<close>.
\<close>

theorem progress_counts_every_file:
  assumes "listdir E directory = Inr names"
    and "0 < max_workers self"
  shows "\<exists>R. process_directory S E self directory st picks views = Inr R \<and>
           total (progress_tracker R) = length (wav_files directory names) \<and>
           completed (progress_tracker R) = length (wav_files directory names) \<and>
           (\<forall>k \<le> length (wav_files directory names).
              total (progress_tracker
                (as_completed S E (processor self)
                   (take k (completion_order picks (wav_files directory names))) views [st]
                   (start_run directory st (wav_files directory names))))
                = length (wav_files directory names) \<and>
              completed (progress_tracker
                (as_completed S E (processor self)
                   (take k (completion_order picks (wav_files directory names))) views [st]
                   (start_run directory st (wav_files directory names))))
                = k)"
  using assms
  by (simp add: process_directory_def Let_def progress_as_completed start_run_def
      ProgressTracker_def length_completion_order min_def)

theorem progress_counts_every_file_witness:
  "\<exists>R. process_directory set_state_manager demo demo_engine ''d'' {} [2, 0] [0, 2] = Inr R \<and>
        total (progress_tracker R) = 3 \<and> completed (progress_tracker R) = 3 \<and>
        completed (progress_tracker
          (as_completed set_state_manager demo (processor demo_engine)
             (take 2 (completion_order [2, 0] [''d/a.wav'', ''d/b.wav'', ''d/c.wav'']))
             [0, 2] [{}] (start_run ''d'' {} [''d/a.wav'', ''d/b.wav'', ''d/c.wav'']))) = 2"
proof -
  have h: "listdir demo ''d'' = Inr [''a.wav'', ''notes.txt'', ''b.wav'', ''c.wav'']"
    by (simp add: demo_listdir)
  have len: "length [''d/a.wav'', ''d/b.wav'', ''d/c.wav''] = 3"
    by simp
  note w = progress_counts_every_file
    [OF h demo_workers, of set_state_manager "{}" "[2, 0]" "[0, 2]",
     unfolded demo_wav_files_d len]
  then obtain R where
    R: "process_directory set_state_manager demo demo_engine ''d'' {} [2, 0] [0, 2] = Inr R"
    and t: "total (progress_tracker R) = 3" and c: "completed (progress_tracker R) = 3"
    and steps: "\<forall>k \<le> 3.
      total (progress_tracker
        (as_completed set_state_manager demo (processor demo_engine)
           (take k (completion_order [2, 0] [''d/a.wav'', ''d/b.wav'', ''d/c.wav'']))
           [0, 2] [{}] (start_run ''d'' {} [''d/a.wav'', ''d/b.wav'', ''d/c.wav'']))) = 3 \<and>
      completed (progress_tracker
        (as_completed set_state_manager demo (processor demo_engine)
           (take k (completion_order [2, 0] [''d/a.wav'', ''d/b.wav'', ''d/c.wav'']))
           [0, 2] [{}] (start_run ''d'' {} [''d/a.wav'', ''d/b.wav'', ''d/c.wav'']))) = k"
    by blast
  have "(2::nat) \<le> 3" by simp
  with steps have "completed (progress_tracker
        (as_completed set_state_manager demo (processor demo_engine)
           (take 2 (completion_order [2, 0] [''d/a.wav'', ''d/b.wav'', ''d/c.wav'']))
           [0, 2] [{}] (start_run ''d'' {} [''d/a.wav'', ''d/b.wav'', ''d/c.wav'']))) = 2"
    by blast
  with R t c show ?thesis by blast
qed

text \<open>
  C9. \<^verbatim>\<open>process_directory\<close> passes the constant \<^verbatim>\<open>False\<close> for
  \<^verbatim>\<open>parallel_channels\<close>. So in the results of a batch run, whatever the state
  manager, the collaborators and the schedule, every multi-channel result of every file
  was computed by \<^verbatim>\<open>process\<close> on the sequential path from the file's loaded
  signal: its keys are \<open>channel_1\<close>, ..., \<open>channel_k\<close> for the \<open>k\<close> channels of
  the signal, and neither \<open>left\<close> nor \<open>right\<close> is among them.
\<close>

theorem batch_channels_sequential:
  fixes S :: "'st state_manager_ops" and E :: "('m, 'o, 's, 'r) collaborators"
  assumes "process_directory S E self directory st picks views = Inr R"
    and "(p, fr) \<in> set (entries (directory_results R))"
    and "(name, mcr) \<in> set (metric_results fr)"
  shows "\<exists>a. from_wav E p = Inr a \<and> fr = process E (processor self) a False \<and>
             map fst mcr = map channel_label [0..<channels a] \<and>
             ''left'' \<notin> set (map fst mcr) \<and> ''right'' \<notin> set (map fst mcr)"
proof -
  define P where "P = (\<lambda>p (fr :: 'r file_analysis_results).
     metric_results fr = [] \<or> (\<exists>a. from_wav E p = Inr a \<and> fr = process E (processor self) a False))"
  from assms(1) obtain names where
    R: "R = as_completed S E (processor self) (completion_order picks (wav_files directory names))
              views [st] (start_run directory st (wav_files directory names))"
    by (auto simp: process_directory_def Let_def split: sum.splits if_splits)
  have "\<forall>(p, fr) \<in> set (entries (directory_results R)). P p fr"
    unfolding R
  proof (rule as_completed_invariant)
    show "\<forall>(p, fr) \<in> set (entries (directory_results
             (start_run directory st (wav_files directory names) :: ('st, 'r) run))). P p fr"
      by (simp add: start_run_def DirectoryAnalysisResults_def)
    show "\<forall>p \<in> set (completion_order picks (wav_files directory names)).
            (\<forall>e. P p (error_result p e)) \<and>
            (\<forall>st fr. process_file S E p (processor self) st False = Inr fr \<longrightarrow> P p fr)"
      by (auto simp: P_def error_result_def add_error_def FileAnalysisResults_def
          process_file_def split: sum.splits if_splits)
  qed
  with assms(2) have "P p fr" by auto
  with assms(3) obtain a where
    a: "from_wav E p = Inr a" and fr: "fr = process E (processor self) a False"
    unfolding P_def by auto
  from assms(3) fr have "map fst mcr = channel_keys False a"
    by (auto dest: process_result_keys)
  then have keys: "map fst mcr = map channel_label [0..<channels a]"
    by (simp add: channel_keys_def)
  have "''left'' \<notin> set (map fst mcr) \<and> ''right'' \<notin> set (map fst mcr)"
    unfolding keys by (rule left_right_not_labels)
  with a fr keys show ?thesis by blast
qed

theorem batch_channels_sequential_witness:
  "\<exists>a. from_wav demo ''d/a.wav'' = Inr a \<and>
        [''channel_1'', ''channel_2''] = map channel_label [0..<channels a] \<and>
        ''left'' \<notin> set [''channel_1'', ''channel_2''] \<and>
        ''right'' \<notin> set [''channel_1'', ''channel_2'']"
proof -
  let ?mcr = "[(''channel_1'', \<lparr>payload = 12::nat, channel = ''channel_1''\<rparr>),
               (''channel_2'', \<lparr>payload = 13, channel = ''channel_2''\<rparr>)]"
  let ?fr = "\<lparr>file_path = ''d/a.wav'',
              metric_results =
                [(''loudness'', ?mcr),
                 (''sharpness'',
                  [(''channel_1'', \<lparr>payload = 22, channel = ''channel_1''\<rparr>),
                   (''channel_2'', \<lparr>payload = 23, channel = ''channel_2''\<rparr>)])],
              errors = []\<rparr>"
  obtain R where
    R: "process_directory set_state_manager demo demo_engine ''d'' {} [] [] = Inr R"
    and ent: "(''d/a.wav'', ?fr) \<in> set (entries (directory_results R))"
    using demo_run_d by simp
  have m: "(''loudness'', ?mcr) \<in> set (metric_results ?fr)"
    by simp
  from batch_channels_sequential [OF R ent m] show ?thesis
    by auto
qed

text \<open>
  C4, as stated, fails. With a state manager whose \<^verbatim>\<open>is_processed\<close> raises for
  \<open>d/c.wav\<close> and whose \<^verbatim>\<open>mark_processed\<close> raises for \<open>d/a.wav\<close>, the run
  over directory \<open>d\<close> returns a result (\<open>Inr\<close>), not the exception (\<open>Inl\<close>):
  both errors are entries of the result tree.
\<close>

theorem state_store_error_not_propagated:
  "is_processed failing_state_manager {} ''d/c.wav'' = Inl (Exception ''state file unreadable'') \<and>
   mark_processed failing_state_manager {} ''d/a.wav'' = Inl (Exception ''disk full'') \<and>
   process_directory failing_state_manager demo demo_engine ''d'' {} [] [] =
     Inr \<lparr>directory_results =
            \<lparr>directory_path = ''d'',
             entries =
               [(''d/a.wav'',
                 \<lparr>file_path = ''d/a.wav'', metric_results = [], errors = [''disk full'']\<rparr>),
                (''d/b.wav'',
                 \<lparr>file_path = ''d/b.wav'', metric_results = [], errors = [''not a wav file'']\<rparr>),
                (''d/c.wav'',
                 \<lparr>file_path = ''d/c.wav'', metric_results = [],
                  errors = [''state file unreadable'']\<rparr>)]\<rparr>,
          state_manager = {''d/b.wav''},
          progress_tracker =
            \<lparr>total = 3, completed = 3, description = ''Processing files''\<rparr>\<rparr>"
  by (simp add: demo_run_failing) (simp add: failing_state_manager_def)

text \<open>
  C4, amended. For an engine with a positive worker count. When a call of the state
  manager raises during the run for an enumerated file, either the file's
  \<^verbatim>\<open>is_processed\<close> or, that having answered, the file's
  \<^verbatim>\<open>mark_processed\<close>, in whatever state the state manager then is, the error is
  absorbed into the result tree: \<^verbatim>\<open>process_directory\<close> returns, and the file's
  entry in the returned results is a \<^verbatim>\<open>FileAnalysisResults\<close> with no metric
  result and the error's message as its only error.
\<close>

theorem state_store_error_absorbed:
  fixes S :: "'st state_manager_ops" and E :: "('m, 'o, 's, 'r) collaborators"
  assumes "listdir E directory = Inr names"
    and "directory_listing names"
    and "0 < max_workers self"
    and "(p, st_seen, st_mark) \<in> set (state_manager_calls S E (processor self)
           (completion_order picks (wav_files directory names)) views [st]
           (start_run directory st (wav_files directory names)))"
    and "is_processed S st_seen p = Inl e \<or>
         ((\<exists>b. is_processed S st_seen p = Inr b) \<and> mark_processed S st_mark p = Inl e)"
  shows "\<exists>R. process_directory S E self directory st picks views = Inr R \<and>
           map_of (entries (directory_results R)) p =
             Some \<lparr>file_path = p, metric_results = [], errors = [str e]\<rparr>"
proof -
  have d: "distinct (completion_order picks (wav_files directory names))"
    using distinct_wav_files [OF assms(2)] by (simp add: distinct_completion_order)
  from as_completed_failed_call [OF d assms(4,5)]
  have "map_of (entries (directory_results
      (as_completed S E (processor self) (completion_order picks (wav_files directory names))
         views [st] (start_run directory st (wav_files directory names))))) p
      = Some (error_result p e)" .
  with assms(1,3) show ?thesis
    by (simp add: process_directory_def Let_def error_result_def add_error_def
        FileAnalysisResults_def)
qed

theorem state_store_error_absorbed_witness:
  "(\<exists>R. process_directory failing_state_manager demo demo_engine ''d'' {} [2, 0] [0, 2] = Inr R \<and>
         map_of (entries (directory_results R)) ''d/c.wav'' =
           Some \<lparr>file_path = ''d/c.wav'', metric_results = [],
                 errors = [''state file unreadable'']\<rparr>) \<and>
   (\<exists>R. process_directory failing_state_manager demo demo_engine ''d'' {} [2, 0] [0, 2] = Inr R \<and>
         map_of (entries (directory_results R)) ''d/a.wav'' =
           Some \<lparr>file_path = ''d/a.wav'', metric_results = [], errors = [''disk full'']\<rparr>) \<and>
   (\<exists>R. process_directory full_state_manager demo demo_engine ''d'' {} [] [] = Inr R \<and>
         map_of (entries (directory_results R)) ''d/c.wav'' =
           Some \<lparr>file_path = ''d/c.wav'', metric_results = [], errors = [''disk full'']\<rparr>)"
proof -
  have h: "listdir demo ''d'' = Inr [''a.wav'', ''notes.txt'', ''b.wav'', ''c.wav'']"
    by (simp add: demo_listdir)
  have c: "(''d/c.wav'', {}, {}) \<in> set (state_manager_calls failing_state_manager demo
        (processor demo_engine)
        (completion_order [2, 0] (wav_files ''d'' [''a.wav'', ''notes.txt'', ''b.wav'', ''c.wav'']))
        [0, 2] [{}]
        (start_run ''d'' {} (wav_files ''d'' [''a.wav'', ''notes.txt'', ''b.wav'', ''c.wav''])))"
    and a: "(''d/a.wav'', {}, {}) \<in> set (state_manager_calls failing_state_manager demo
        (processor demo_engine)
        (completion_order [2, 0] (wav_files ''d'' [''a.wav'', ''notes.txt'', ''b.wav'', ''c.wav'']))
        [0, 2] [{}]
        (start_run ''d'' {} (wav_files ''d'' [''a.wav'', ''notes.txt'', ''b.wav'', ''c.wav''])))"
    unfolding demo_wav_files_d demo_order_d demo_calls_failing by simp_all
  have f: "(''d/c.wav'', {}, {''d/a.wav''}) \<in> set (state_manager_calls full_state_manager demo
        (processor demo_engine)
        (completion_order [] (wav_files ''d'' [''a.wav'', ''notes.txt'', ''b.wav'', ''c.wav'']))
        [] [{}]
        (start_run ''d'' {} (wav_files ''d'' [''a.wav'', ''notes.txt'', ''b.wav'', ''c.wav''])))"
    unfolding demo_wav_files_d completion_order.simps demo_calls_full by simp
  have rd: "is_processed failing_state_manager {} ''d/c.wav''
              = Inl (Exception ''state file unreadable'') \<or>
            ((\<exists>b. is_processed failing_state_manager {} ''d/c.wav'' = Inr b) \<and>
             mark_processed failing_state_manager {} ''d/c.wav''
               = Inl (Exception ''state file unreadable''))"
    by (auto simp: failing_state_manager_def)
  have wr: "is_processed failing_state_manager {} ''d/a.wav'' = Inl (Exception ''disk full'') \<or>
            ((\<exists>b. is_processed failing_state_manager {} ''d/a.wav'' = Inr b) \<and>
             mark_processed failing_state_manager {} ''d/a.wav'' = Inl (Exception ''disk full''))"
    by (auto simp: failing_state_manager_def)
  have late: "is_processed full_state_manager {} ''d/c.wav'' = Inl (Exception ''disk full'') \<or>
            ((\<exists>b. is_processed full_state_manager {} ''d/c.wav'' = Inr b) \<and>
             mark_processed full_state_manager {''d/a.wav''} ''d/c.wav''
               = Inl (Exception ''disk full''))"
    by (auto simp: full_state_manager_def)
  from state_store_error_absorbed [OF h demo_listing_d demo_workers c rd]
    state_store_error_absorbed [OF h demo_listing_d demo_workers a wr]
    state_store_error_absorbed [OF h demo_listing_d demo_workers f late]
  show ?thesis by simp
qed

text \<open>
  C1. At the failing input of this claim, directory \<open>d\<close> is processed with an empty
  state manager; the file \<open>d/b.wav\<close> cannot be loaded. The run records the load
  error for it and marks it complete all the same, as it marks \<open>d/c.wav\<close>, whose
  processing ended in an exception. A second run with the state manager the first run
  left re-attempts neither: it skips all three files.
\<close>

theorem failed_load_marked_complete:
  "from_wav demo ''d/b.wav'' = Inl (Exception ''not a wav file'') \<and>
   process_directory set_state_manager demo demo_engine ''d'' {} [] [] =
     Inr \<lparr>directory_results =
            \<lparr>directory_path = ''d'',
             entries =
               [(''d/a.wav'',
                 \<lparr>file_path = ''d/a.wav'',
                  metric_results =
                    [(''loudness'',
                      [(''channel_1'', \<lparr>payload = 12, channel = ''channel_1''\<rparr>),
                       (''channel_2'', \<lparr>payload = 13, channel = ''channel_2''\<rparr>)]),
                     (''sharpness'',
                      [(''channel_1'', \<lparr>payload = 22, channel = ''channel_1''\<rparr>),
                       (''channel_2'', \<lparr>payload = 23, channel = ''channel_2''\<rparr>)])],
                  errors = []\<rparr>),
                (''d/b.wav'',
                 \<lparr>file_path = ''d/b.wav'', metric_results = [], errors = [''not a wav file'']\<rparr>),
                (''d/c.wav'',
                 \<lparr>file_path = ''d/c.wav'', metric_results = [], errors = []\<rparr>)]\<rparr>,
          state_manager = {''d/c.wav'', ''d/b.wav'', ''d/a.wav''},
          progress_tracker =
            \<lparr>total = 3, completed = 3, description = ''Processing files''\<rparr>\<rparr> \<and>
   process_directory set_state_manager demo demo_engine ''d''
       {''d/c.wav'', ''d/b.wav'', ''d/a.wav''} [] [] =
     Inr \<lparr>directory_results =
            \<lparr>directory_path = ''d'',
             entries =
               [(''d/a.wav'', \<lparr>file_path = ''d/a.wav'', metric_results = [], errors = []\<rparr>),
                (''d/b.wav'', \<lparr>file_path = ''d/b.wav'', metric_results = [], errors = []\<rparr>),
                (''d/c.wav'', \<lparr>file_path = ''d/c.wav'', metric_results = [], errors = []\<rparr>)]\<rparr>,
          state_manager = {''d/c.wav'', ''d/b.wav'', ''d/a.wav''},
          progress_tracker =
            \<lparr>total = 3, completed = 3, description = ''Processing files''\<rparr>\<rparr>"
  by (simp add: demo_run_d demo_run_d_again) (simp add: demo_from_wav)

text \<open>
  C2, as stated, fails. The file \<open>e/a.wav\<close> is marked complete and the
  force-reprocess flag is false; the returned results have an entry for it all the same,
  an empty one.
\<close>

theorem skipped_file_has_entry:
  "force_reprocess (processor demo_engine) = False \<and>
   is_processed set_state_manager {''e/a.wav''} ''e/a.wav'' = Inr True \<and>
   process_directory set_state_manager demo demo_engine ''e'' {''e/a.wav''} [] [] =
     Inr \<lparr>directory_results =
            \<lparr>directory_path = ''e'',
             entries =
               [(''e/a.wav'', \<lparr>file_path = ''e/a.wav'', metric_results = [], errors = []\<rparr>),
                (''e/b.wav'',
                 \<lparr>file_path = ''e/b.wav'', metric_results = [], errors = [''not a wav file'']\<rparr>),
                (''e/c.wav'',
                 \<lparr>file_path = ''e/c.wav'',
                  metric_results =
                    [(''loudness'', [(''channel_1'', \<lparr>payload = 17, channel = ''channel_1''\<rparr>)]),
                     (''sharpness'', [(''channel_1'', \<lparr>payload = 27, channel = ''channel_1''\<rparr>)])],
                  errors = []\<rparr>)]\<rparr>,
          state_manager = {''e/c.wav'', ''e/b.wav'', ''e/a.wav''},
          progress_tracker =
            \<lparr>total = 3, completed = 3, description = ''Processing files''\<rparr>\<rparr>"
  by (simp add: demo_run_e_resumed)
     (simp add: demo_engine_def demo_processor_def set_state_manager_def)

text \<open>
  C2, amended. For an engine with a positive worker count and every enumerated file
  already marked complete in the state manager, when the force-reprocess flag is false,
  \<^verbatim>\<open>process_directory\<close> returns a result in which it has neither loaded
  the file nor computed anything for it (whatever the loader and the metrics would do),
  and has added for it an empty \<^verbatim>\<open>FileAnalysisResults\<close>, without metric results
  and without errors; the file is marked complete after the run as before, and so is
  every file that was. The state manager is the spec's set of
  completed files, the directory listing is what \<^verbatim>\<open>os.listdir\<close> returns, and
  the schedule is arbitrary.
\<close>

theorem skipped_file_keeps_empty_entry:
  assumes "listdir E directory = Inr names"
    and "directory_listing names"
    and "p \<in> set (wav_files directory names)"
    and "p \<in> st0"
    and "\<not> force_reprocess (processor self)"
    and "0 < max_workers self"
  shows "\<exists>R. process_directory set_state_manager E self directory st0 picks views = Inr R \<and>
           map_of (entries (directory_results R)) p =
             Some \<lparr>file_path = p, metric_results = [], errors = []\<rparr> \<and>
           p \<in> state_manager R \<and> st0 \<subseteq> state_manager R"
proof -
  from assms(3) have "p \<in> set (completion_order picks (wav_files directory names))"
    by (simp add: set_completion_order)
  then have "map_of (map (\<lambda>p. (p, unit_of_work set_state_manager E (processor self) st0 p))
                 (completion_order picks (wav_files directory names))) p
               = Some (unit_of_work set_state_manager E (processor self) st0 p)"
    by (rule map_of_graph)
  with assms(4,5) show ?thesis
    unfolding process_directory_set_store [OF assms(1,2,6)]
    by (simp add: unit_of_work_skipped FileAnalysisResults_def)
qed

theorem skipped_file_keeps_empty_entry_witness:
  "\<exists>R. process_directory set_state_manager demo demo_engine ''e'' {''e/a.wav''} [2, 0] [0, 2]
          = Inr R \<and>
        map_of (entries (directory_results R)) ''e/a.wav'' =
          Some \<lparr>file_path = ''e/a.wav'', metric_results = [], errors = []\<rparr> \<and>
        ''e/a.wav'' \<in> state_manager R \<and> {''e/a.wav''} \<subseteq> state_manager R"
proof -
  have h: "listdir demo ''e'' = Inr [''a.wav'', ''b.wav'', ''c.wav'']"
    by (simp add: demo_listdir)
  have m: "''e/a.wav'' \<in> set (wav_files ''e'' [''a.wav'', ''b.wav'', ''c.wav''])"
    by (simp add: demo_wav_files_e)
  have s: "''e/a.wav'' \<in> {''e/a.wav''}"
    by simp
  have f: "\<not> force_reprocess (processor demo_engine)"
    by (simp add: demo_engine_def demo_processor_def)
  show ?thesis
    by (rule skipped_file_keeps_empty_entry [OF h demo_listing_e m s f demo_workers])
qed

text \<open>
  C5. A batch of \<open>N\<close> eligible files, run by an engine with a positive worker
  count, none of them skipped (none marked complete, or the force-reprocess flag set),
  where exactly one file does not load and, for every other file, no exception ends the
  loop over the metrics. Whatever the schedule,
  \<^verbatim>\<open>process_directory\<close> returns (it does not raise); the returned results have
  exactly \<open>N\<close> entries, one for each file; \<open>N - 1\<close> of them are full successes (no
  error, and a multi-channel result for every enabled metric); and exactly one carries
  only an error, which is the entry of the file that did not load, with the loader's
  message.
\<close>

theorem one_failed_load_isolated:
  assumes "listdir E directory = Inr names"
    and "directory_listing names"
    and "p0 \<in> set (wav_files directory names)"
    and "from_wav E p0 = Inl e"
    and "\<forall>p \<in> set (wav_files directory names). p \<noteq> p0 \<longrightarrow>
           (\<exists>a. from_wav E p = Inr a \<and>
                snd (metrics_loop E (metrics (processor self)) a False
                       (FileAnalysisResults (source_path a))) = None)"
    and "\<forall>p \<in> set (wav_files directory names). force_reprocess (processor self) \<or> p \<notin> st0"
    and "distinct (map fst (metrics (processor self)))"
    and "0 < max_workers self"
  shows "\<exists>R. process_directory set_state_manager E self directory st0 picks views = Inr R \<and>
           length (entries (directory_results R)) = length (wav_files directory names) \<and>
           mset (map fst (entries (directory_results R))) = mset (wav_files directory names) \<and>
           map_of (entries (directory_results R)) p0 =
             Some \<lparr>file_path = p0, metric_results = [], errors = [str e]\<rparr> \<and>
           length (filter (\<lambda>(p, fr). errors fr = [] \<and>
                      map fst (metric_results fr) = enabled_names (metrics (processor self)))
                    (entries (directory_results R)))
             = length (wav_files directory names) - 1 \<and>
           length (filter (\<lambda>(p, fr). metric_results fr = [] \<and> errors fr \<noteq> [])
                    (entries (directory_results R))) = 1"
proof -
  let ?files = "wav_files directory names"
  let ?order = "completion_order picks ?files"
  let ?u = "unit_of_work set_state_manager E (processor self) st0"
  let ?ok = "\<lambda>fr. errors fr = [] \<and>
               map fst (metric_results fr) = enabled_names (metrics (processor self))"
  let ?bad = "\<lambda>fr. metric_results fr = [] \<and> errors fr \<noteq> []"
  have d: "distinct ?order"
    using distinct_wav_files [OF assms(2)] by (simp add: distinct_completion_order)
  have p0: "p0 \<in> set ?order"
    using assms(3) by (simp add: set_completion_order)
  have u0: "?u p0 = \<lparr>file_path = p0, metric_results = [], errors = [str e]\<rparr>"
    using unit_of_work_load_error [of "processor self" p0 st0 E e] assms(3,4,6)
    by (simp add: error_result_def add_error_def FileAnalysisResults_def)
  have u: "?ok (?u p) \<and> \<not> ?bad (?u p)" if "p \<in> set ?order" and "p \<noteq> p0" for p
  proof -
    from that have p: "p \<in> set ?files" by (simp add: set_completion_order)
    with assms(5) that(2) obtain a where
      a: "from_wav E p = Inr a"
      and fin: "snd (metrics_loop E (metrics (processor self)) a False
                  (FileAnalysisResults (source_path a))) = None"
      by blast
    from p assms(6) have "force_reprocess (processor self) \<or> p \<notin> st0" by blast
    from unit_of_work_processed [OF this a]
    have "?u p = process E (processor self) a False" .
    then show ?thesis
      by (simp add: process_errors process_all_names [OF fin assms(7)])
  qed
  have ok: "filter (\<lambda>p. ?ok (?u p)) ?order = filter (\<lambda>p. p \<noteq> p0) ?order"
    by (rule filter_cong [OF refl]) (use u u0 in auto)
  have bad: "filter (\<lambda>p. ?bad (?u p)) ?order = filter (\<lambda>p. p = p0) ?order"
    by (rule filter_cong [OF refl]) (use u u0 in auto)
  obtain R where
    R: "process_directory set_state_manager E self directory st0 picks views = Inr R"
    and ent: "entries (directory_results R) = map (\<lambda>p. (p, ?u p)) ?order"
    using process_directory_set_store [OF assms(1,2,8), of st0 picks views] by simp
  have "map fst (entries (directory_results R)) = ?order"
    unfolding ent by (simp add: comp_def)
  then have keys: "mset (map fst (entries (directory_results R))) = mset ?files"
    by (simp only: mset_completion_order)
  have len: "length (entries (directory_results R)) = length ?files"
    unfolding ent by (simp add: length_completion_order)
  have good: "length (filter (\<lambda>(p, fr). ?ok fr) (entries (directory_results R)))
                = length ?files - 1"
    unfolding ent using length_filter_neq(1) [OF d p0] ok
    by (simp add: filter_map comp_def length_completion_order)
  have failed: "length (filter (\<lambda>(p, fr). ?bad fr) (entries (directory_results R))) = 1"
    unfolding ent using length_filter_neq(2) [OF d p0] bad
    by (simp add: filter_map comp_def)
  have "map_of (entries (directory_results R)) p0 = Some (?u p0)"
    unfolding ent using p0 by (rule map_of_graph)
  then have entry: "map_of (entries (directory_results R)) p0 =
      Some \<lparr>file_path = p0, metric_results = [], errors = [str e]\<rparr>"
    by (simp only: u0)
  from R len keys entry good failed show ?thesis by blast
qed

theorem one_failed_load_isolated_witness:
  "\<exists>R. process_directory set_state_manager demo demo_engine ''e'' {} [2, 0] [0, 2] = Inr R \<and>
        length (entries (directory_results R)) = 3 \<and>
        map_of (entries (directory_results R)) ''e/b.wav'' =
          Some \<lparr>file_path = ''e/b.wav'', metric_results = [], errors = [''not a wav file'']\<rparr> \<and>
        length (filter (\<lambda>(p, fr). errors fr = [] \<and>
                   map fst (metric_results fr) = [''loudness'', ''sharpness''])
                 (entries (directory_results R))) = 2 \<and>
        length (filter (\<lambda>(p, fr). metric_results fr = [] \<and> errors fr \<noteq> [])
                 (entries (directory_results R))) = 1"
proof -
  have h: "listdir demo ''e'' = Inr [''a.wav'', ''b.wav'', ''c.wav'']"
    by (simp add: demo_listdir)
  have m: "''e/b.wav'' \<in> set (wav_files ''e'' [''a.wav'', ''b.wav'', ''c.wav''])"
    by (simp add: demo_wav_files_e)
  have l: "from_wav demo ''e/b.wav'' = Inl (Exception ''not a wav file'')"
    by (simp add: demo_from_wav)
  have proc: "processor demo_engine = demo_processor"
    by (simp add: demo_engine_def)
  have others: "\<forall>p \<in> set (wav_files ''e'' [''a.wav'', ''b.wav'', ''c.wav'']). p \<noteq> ''e/b.wav'' \<longrightarrow>
      (\<exists>a. from_wav demo p = Inr a \<and>
           snd (metrics_loop demo (metrics (processor demo_engine)) a False
                  (FileAnalysisResults (source_path a))) = None)"
    by (simp add: demo_wav_files_e demo_from_wav proc demo_loop_e_a demo_loop_e_c)
  have fresh: "\<forall>p \<in> set (wav_files ''e'' [''a.wav'', ''b.wav'', ''c.wav'']).
      force_reprocess (processor demo_engine) \<or> p \<notin> {}"
    by simp
  have dist: "distinct (map fst (metrics (processor demo_engine)))"
    by (simp add: proc demo_processor_def)
  have names: "enabled_names (metrics (processor demo_engine)) = [''loudness'', ''sharpness'']"
    by (simp add: proc demo_processor_def enabled_names_def is_enabled_def on_def off_def)
  have len: "length (wav_files ''e'' [''a.wav'', ''b.wav'', ''c.wav'']) = 3"
    by (simp add: demo_wav_files_e)
  from one_failed_load_isolated
    [OF h demo_listing_e m l others fresh dist demo_workers, of "[2, 0]" "[0, 2]"]
  show ?thesis
    unfolding names len by auto
qed

end
